theory Spec2Isabelle
  imports Complex_Main
begin

section \<open>Pseudo-label generators and regression disparity of \<open>uda/model/regda_7.py\<close>\<close>

text \<open>
  The development embeds the heatmap template bank, the pseudo-label generators and the
  regression-disparity loss selectors of \<open>regda_7.py\<close>.

  Tensor entries are real numbers: the rounding of \<open>float32\<close> is not modelled. A value
  that numpy or torch computes as \<open>nan\<close> or \<open>inf\<close> (a division by zero) has no real
  counterpart; it is modelled by the type \<open>fval\<close> where the code goes on computing with it,
  and by the outcome \<open>NotFinite\<close> where it ends up in the template bank. That happens
  for \<open>sigma = 0\<close> and only then: Python builds the generator, its bank holds \<open>nan\<close> at
  every peak, and \<open>forward\<close> returns tensors with \<open>nan\<close> entries. The model does not
  follow such a generator: a statement about a constructed generator
  (\<open>... = Inr gen\<close>) is a statement about \<open>sigma \<noteq> 0\<close>, and says so.
\<close>

subsection \<open>Failures\<close>

text \<open>
  The exceptions the modelled code can raise. \<open>NotFinite\<close> is not an exception: Python
  returns normally there, with \<open>nan\<close> entries in the template bank.
\<close>

datatype failure = ValueError | IndexError | AssertionError | RuntimeError | NotFinite

fun mapE :: "('a \<Rightarrow> failure + 'b) \<Rightarrow> 'a list \<Rightarrow> failure + 'b list" where
  "mapE f [] = Inr []"
| "mapE f (x # xs) =
     (case f x of
        Inl e \<Rightarrow> Inl e
      | Inr y \<Rightarrow> (case mapE f xs of Inl e \<Rightarrow> Inl e | Inr ys \<Rightarrow> Inr (y # ys)))"

subsection \<open>Python and numpy primitives\<close>

text \<open>\<open>int(r)\<close> of a float truncates toward zero; of an integer it is the identity.\<close>

definition py_int :: "real \<Rightarrow> int" where
  "py_int r = (if 0 \<le> r then \<lfloor>r\<rfloor> else \<lceil>r\<rceil>)"

text \<open>
  A bound \<open>i\<close> of the slice \<open>a[lo:hi]\<close> on an axis of length \<open>n\<close>: a negative bound counts
  from the end, and every bound is clipped to the axis.
\<close>

definition slice_index :: "nat \<Rightarrow> int \<Rightarrow> nat" where
  "slice_index n i = (if i < 0 then nat (i + int n) else min n (nat i))"

definition slice_len :: "nat \<Rightarrow> int \<times> int \<Rightarrow> nat" where
  "slice_len n s = slice_index n (snd s) - slice_index n (fst s)"

definition slice :: "'a list \<Rightarrow> int \<times> int \<Rightarrow> 'a list" where
  "slice xs s = take (slice_len (length xs) s) (drop (slice_index (length xs) (fst s)) xs)"

text \<open>\<open>a[ys[0]:ys[1], xs[0]:xs[1]]\<close> of a two-dimensional array.\<close>

definition slice2 :: "'a list list \<Rightarrow> int \<times> int \<Rightarrow> int \<times> int \<Rightarrow> 'a list list" where
  "slice2 a ys xs = map (\<lambda>row. slice row xs) (slice a ys)"

definition zeros2 :: "nat \<Rightarrow> nat \<Rightarrow> real list list" where
  "zeros2 h w = replicate h (replicate w 0)"

text \<open>
  \<open>a[ys[0]:ys[1], xs[0]:xs[1]] = v\<close> for an array \<open>a\<close> of shape \<open>(h, w)\<close> and a value
  \<open>v\<close> of shape \<open>sh\<close>. numpy broadcasts an axis of \<open>v\<close> of length 1 and raises
  \<open>ValueError\<close> when the shapes do not fit.
\<close>

definition assign_slice2 ::
  "nat \<Rightarrow> nat \<Rightarrow> real list list \<Rightarrow> int \<times> int \<Rightarrow> int \<times> int \<Rightarrow> nat \<times> nat \<Rightarrow> real list list
     \<Rightarrow> failure + real list list" where
  "assign_slice2 h w a ys xs sh v =
     (let y0 = slice_index h (fst ys); ny = slice_len h ys;
          x0 = slice_index w (fst xs); nx = slice_len w xs
      in if (fst sh = ny \<or> fst sh = 1) \<and> (snd sh = nx \<or> snd sh = 1)
         then Inr (map (\<lambda>i. map (\<lambda>j.
                     if y0 \<le> i \<and> i < y0 + ny \<and> x0 \<le> j \<and> j < x0 + nx
                     then v ! (if fst sh = 1 then 0 else i - y0) ! (if snd sh = 1 then 0 else j - x0)
                     else a ! i ! j) [0..<w]) [0..<h])
         else Inl ValueError)"

subsection \<open>The heatmap template bank\<close>

text \<open>
  The Gaussian patch \<open>g\<close> of the constructors: \<open>size = 2 * tmp_size + 1\<close>,
  \<open>x = np.arange(0, size, 1)\<close>, \<open>y = x[:, np.newaxis]\<close>, \<open>x0 = y0 = size // 2\<close> and
  \<open>g = np.exp(- ((x - x0) ** 2 + (y - y0) ** 2) / (2 * sigma ** 2))\<close>.
\<close>

definition gaussian :: "int \<Rightarrow> real \<Rightarrow> real list list" where
  "gaussian sigma tmp_size =
     (let size = 2 * tmp_size + 1;
          x = map real [0..<nat \<lceil>size\<rceil>];
          x0 = real_of_int \<lfloor>size / 2\<rfloor>;
          y0 = x0
      in map (\<lambda>yv. map (\<lambda>xv.
           exp (- ((xv - x0) ^ 2 + (yv - y0) ^ 2) / (2 * (real_of_int sigma) ^ 2))) x) x)"

text \<open>
  The body of the two loops over \<open>mu_x\<close> and \<open>mu_y\<close>: the entry \<open>heatmaps[mu_x][mu_y]\<close>,
  a zero image of shape \<open>(height, width)\<close> into which the usable part of \<open>g\<close> is pasted.
  With \<open>sigma = 0\<close> the patch is the single value \<open>exp(-(0/0))\<close>, a \<open>nan\<close>, pasted at the
  peak.
\<close>

definition heatmap_entry :: "nat \<Rightarrow> nat \<Rightarrow> int \<Rightarrow> real \<Rightarrow> nat \<Rightarrow> nat \<Rightarrow> failure + real list list" where
  "heatmap_entry width height sigma tmp_size mu_x mu_y =
     (let ul = (py_int (real mu_x - tmp_size), py_int (real mu_y - tmp_size));
          br = (py_int (real mu_x + tmp_size + 1), py_int (real mu_y + tmp_size + 1));
          g = gaussian sigma tmp_size;
          g_x = (max 0 (- fst ul), min (fst br) (int width) - fst ul);
          g_y = (max 0 (- snd ul), min (snd br) (int height) - snd ul);
          img_x = (max 0 (fst ul), min (fst br) (int width));
          img_y = (max 0 (snd ul), min (snd br) (int height))
      in if sigma = 0 then Inl NotFinite
         else assign_slice2 height width (zeros2 height width) img_y img_x
                (slice_len (length g) g_y, slice_len (length g) g_x) (slice2 g g_y g_x))"

definition build_heatmaps :: "nat \<Rightarrow> nat \<Rightarrow> int \<Rightarrow> real \<Rightarrow> failure + real list list list list" where
  "build_heatmaps width height sigma tmp_size =
     mapE (\<lambda>mu_x. mapE (\<lambda>mu_y. heatmap_entry width height sigma tmp_size mu_x mu_y) [0..<height])
       [0..<width]"

text \<open>\<open>1. - np.eye(num_keypoints)\<close>.\<close>

definition make_false_matrix :: "nat \<Rightarrow> real list list" where
  "make_false_matrix num_keypoints =
     map (\<lambda>i. map (\<lambda>j. 1 - (if i = j then 1 else 0)) [0..<num_keypoints]) [0..<num_keypoints]"

record generator =
  height :: nat
  width :: nat
  sigma :: int
  heatmaps :: "real list list list list"
  false_matrix :: "real list list"

text \<open>
  The four constructors differ in \<open>tmp_size\<close> only: \<open>sigma * 3\<close> (PseudoLabelGenerator and
  PseudoLabelGenerator02), \<open>sigma * 1.5\<close> (PseudoLabelGenerator01) and \<open>sigma * 2\<close>
  (PseudoLabelGenerator03).
\<close>

definition generator_init :: "real \<Rightarrow> nat \<Rightarrow> nat \<Rightarrow> nat \<Rightarrow> int \<Rightarrow> failure + generator" where
  "generator_init tmp_size num_keypoints h w s =
     (case build_heatmaps w h s tmp_size of
        Inl e \<Rightarrow> Inl e
      | Inr hm \<Rightarrow> Inr \<lparr>height = h, width = w, sigma = s, heatmaps = hm,
                      false_matrix = make_false_matrix num_keypoints\<rparr>)"

definition PseudoLabelGenerator_init :: "nat \<Rightarrow> nat \<Rightarrow> nat \<Rightarrow> int \<Rightarrow> failure + generator" where
  "PseudoLabelGenerator_init num_keypoints h w s =
     generator_init (real_of_int s * 3) num_keypoints h w s"

definition PseudoLabelGenerator01_init :: "nat \<Rightarrow> nat \<Rightarrow> nat \<Rightarrow> int \<Rightarrow> failure + generator" where
  "PseudoLabelGenerator01_init num_keypoints h w s =
     generator_init (real_of_int s * 1.5) num_keypoints h w s"

definition PseudoLabelGenerator03_init :: "nat \<Rightarrow> nat \<Rightarrow> nat \<Rightarrow> int \<Rightarrow> failure + generator" where
  "PseudoLabelGenerator03_init num_keypoints h w s =
     generator_init (real_of_int s * 2) num_keypoints h w s"

subsection \<open>Tensors\<close>

text \<open>
  A tensor carries its shape and its entries as nested lists, outermost axis first. The
  shape is kept beside the entries because an axis of length 0 leaves no trace in them.
\<close>

record 'a tensor4 =
  shape :: "nat \<times> nat \<times> nat \<times> nat"
  elems :: "'a list list list list"

record 'a tensor3 =
  shape3 :: "nat \<times> nat \<times> nat"
  elems3 :: "'a list list list"

definition wf_tensor4 :: "'a tensor4 \<Rightarrow> bool" where
  "wf_tensor4 t =
     (case shape t of (B, K, H, W) \<Rightarrow>
        length (elems t) = B \<and>
        (\<forall>s\<in>set (elems t). length s = K \<and>
           (\<forall>c\<in>set s. length c = H \<and> (\<forall>r\<in>set c. length r = W))))"

definition bindE :: "failure + 'a \<Rightarrow> ('a \<Rightarrow> failure + 'b) \<Rightarrow> failure + 'b" where
  "bindE m f = (case m of Inl e \<Rightarrow> Inl e | Inr v \<Rightarrow> f v)"

definition tmap :: "('a \<Rightarrow> 'b) \<Rightarrow> 'a tensor4 \<Rightarrow> 'b tensor4" where
  "tmap f t = \<lparr>shape = shape t, elems = map (map (map (map f))) (elems t)\<rparr>"

definition tmap3 :: "('a \<Rightarrow> 'b) \<Rightarrow> 'a tensor3 \<Rightarrow> 'b tensor3" where
  "tmap3 f t = \<lparr>shape3 = shape3 t, elems3 = map (map (map f)) (elems3 t)\<rparr>"

text \<open>\<open>x.clip(max=1., min=0.)\<close> on one entry.\<close>

definition clip01 :: "real \<Rightarrow> real" where
  "clip01 v = min 1 (max 0 v)"

text \<open>Indexing an axis with an integer: a negative index counts from the end.\<close>

definition py_index :: "nat \<Rightarrow> int \<Rightarrow> failure + nat" where
  "py_index n i =
     (if 0 \<le> i \<and> i < int n then Inr (nat i)
      else if - int n \<le> i \<and> i < 0 then Inr (nat (i + int n))
      else Inl IndexError)"

text \<open>\<open>chunks m n xs\<close>: the first \<open>m\<close> consecutive pieces of length \<open>n\<close> of \<open>xs\<close>.\<close>

fun chunks :: "nat \<Rightarrow> nat \<Rightarrow> 'a list \<Rightarrow> 'a list list" where
  "chunks 0 n xs = []"
| "chunks (Suc m) n xs = take n xs # chunks m n (drop n xs)"

text \<open>
  \<open>a.reshape(B, K, H, W)\<close> of an array given by its entries in row-major order: numpy
  raises \<open>ValueError\<close> unless the number of entries is \<open>B * K * H * W\<close>.
\<close>

definition reshape4 :: "nat \<times> nat \<times> nat \<times> nat \<Rightarrow> 'a list \<Rightarrow> failure + 'a tensor4" where
  "reshape4 sh flat =
     (case sh of (B, K, H, W) \<Rightarrow>
        if length flat = B * K * H * W
        then Inr \<lparr>shape = (B, K, H, W),
                  elems = chunks B K (chunks (B * K) H (chunks (B * K * H) W flat))\<rparr>
        else Inl ValueError)"

text \<open>
  Broadcasting of torch and numpy: two axes fit when their lengths are equal or one of
  them is 1, and an axis of length 1 is read at index 0 throughout.
\<close>

definition bdim :: "nat \<Rightarrow> nat \<Rightarrow> nat option" where
  "bdim a b = (if a = b then Some a else if a = 1 then Some b else if b = 1 then Some a else None)"

definition bpick :: "nat \<Rightarrow> nat \<Rightarrow> nat" where
  "bpick d i = (if d = 1 then 0 else i)"

definition broadcast4 :: "('a \<Rightarrow> 'b \<Rightarrow> 'c) \<Rightarrow> 'a tensor4 \<Rightarrow> 'b tensor4 \<Rightarrow> failure + 'c tensor4" where
  "broadcast4 f x y =
     (case (shape x, shape y) of ((b1, k1, h1, w1), (b2, k2, h2, w2)) \<Rightarrow>
        (case (bdim b1 b2, bdim k1 k2, bdim h1 h2, bdim w1 w2) of
           (Some b, Some k, Some h, Some w) \<Rightarrow>
             Inr \<lparr>shape = (b, k, h, w),
                  elems = map (\<lambda>i. map (\<lambda>j. map (\<lambda>r. map (\<lambda>c.
                    f (elems x ! bpick b1 i ! bpick k1 j ! bpick h1 r ! bpick w1 c)
                      (elems y ! bpick b2 i ! bpick k2 j ! bpick h2 r ! bpick w2 c))
                    [0..<w]) [0..<h]) [0..<k]) [0..<b]\<rparr>
         | _ \<Rightarrow> Inl RuntimeError))"


text \<open>\<open>torch.sum(t, dim=1)\<close>: the sum over the keypoint channels.\<close>

definition sum_dim1 :: "real tensor4 \<Rightarrow> real tensor3" where
  "sum_dim1 t =
     (case shape t of (B, K, H, W) \<Rightarrow>
        \<lparr>shape3 = (B, H, W),
         elems3 = map (\<lambda>s. map (\<lambda>r. map (\<lambda>c. sum_list (map (\<lambda>ch. ch ! r ! c) s)) [0..<W]) [0..<H])
                    (elems t)\<rparr>)"

text \<open>\<open>t.unsqueeze(1).repeat(1, n, 1, 1)\<close>.\<close>

definition unsqueeze_repeat :: "nat \<Rightarrow> 'a tensor3 \<Rightarrow> 'a tensor4" where
  "unsqueeze_repeat n t =
     (case shape3 t of (B, H, W) \<Rightarrow>
        \<lparr>shape = (B, n, H, W), elems = map (\<lambda>img. replicate n img) (elems3 t)\<rparr>)"

subsection \<open>Values that are not finite\<close>

text \<open>
  The result of a float division: \<open>x / 0\<close> does not raise in torch, it is \<open>nan\<close> for
  \<open>x = 0\<close> and an infinity otherwise. The sign of a zero is not modelled.
\<close>

datatype fval = Fin real | PInf | NInf | NaN

definition fdiv :: "real \<Rightarrow> real \<Rightarrow> fval" where
  "fdiv x d = (if d \<noteq> 0 then Fin (x / d) else if 0 < x then PInf else if x < 0 then NInf else NaN)"



text \<open>\<open>torch.max(t)\<close> of a two-dimensional slice; it raises on a slice without entries.\<close>

definition torch_max :: "real list list \<Rightarrow> failure + real" where
  "torch_max img = (case concat img of [] \<Rightarrow> Inl RuntimeError | v # vs \<Rightarrow> Inr (fold max vs v))"

text \<open>\<open>t / torch.max(t)\<close> of a two-dimensional slice \<open>t\<close>.\<close>

definition div_by_max :: "real list list \<Rightarrow> failure + fval list list" where
  "div_by_max img = bindE (torch_max img) (\<lambda>m. Inr (map (map (\<lambda>v. fdiv v m)) img))"

text \<open>\<open>torch.stack\<close> of a Python list of tensors raises on the empty list.\<close>

definition stack :: "'a list \<Rightarrow> failure + 'a list" where
  "stack xs = (if xs = [] then Inl RuntimeError else Inr xs)"

text \<open>
  \<open>label_p = [label_p[k] / torch.max(label_p[k]) for k in range(b)]\<close> followed by
  \<open>torch.stack(label_p)\<close>: the normalisation of every sample by its own maximum.
\<close>

definition normalize_samples :: "nat \<Rightarrow> real tensor3 \<Rightarrow> failure + fval tensor3" where
  "normalize_samples b t =
     (case shape3 t of (B, H, W) \<Rightarrow>
        bindE (mapE (\<lambda>k. if k < B then div_by_max (elems3 t ! k) else Inl IndexError) [0..<b])
          (\<lambda>l. bindE (stack l) (\<lambda>d. Inr \<lparr>shape3 = (b, H, W), elems3 = d\<rparr>)))"

text \<open>
  \<open>b, c, _, _ = ground_false.shape\<close>,
  \<open>[torch.stack([ground_false[k][j] / torch.max(ground_false[k][j]) for j in range(c)]) for k in range(b)]\<close>
  and \<open>torch.stack\<close> of the result: the normalisation of every channel of every sample
  by its own maximum.
\<close>

definition normalize_channels :: "real tensor4 \<Rightarrow> failure + fval tensor4" where
  "normalize_channels t =
     (case shape t of (b, c, H, W) \<Rightarrow>
        bindE (mapE (\<lambda>k. bindE (mapE (\<lambda>j. div_by_max (elems t ! k ! j)) [0..<c]) stack) [0..<b])
          (\<lambda>l. bindE (stack l) (\<lambda>d. Inr \<lparr>shape = (b, c, H, W), elems = d\<rparr>)))"

subsection \<open>The pseudo-label generators\<close>

text \<open>
  The peak decoder \<open>get_max_preds\<close> of \<open>utils.keypoint_detection\<close> is imported by
  \<open>regda_7.py\<close> and is not part of the sources. The generators take it as a parameter:
  it returns \<open>preds\<close> of shape \<open>B x K x (x, y)\<close> and \<open>max_vals\<close>.
\<close>

type_synonym decoder = "real tensor4 \<Rightarrow> failure + (real \<times> real) list list \<times> real list list"

text \<open>
  \<open>self.heatmaps[preds[:, 0], preds[:, 1], :, :]\<close>: one template for every row of
  \<open>preds\<close>; the first axis of the bank has length \<open>width\<close>, the second \<open>height\<close>.
\<close>

definition gather :: "generator \<Rightarrow> (int \<times> int) list \<Rightarrow> failure + real list list list" where
  "gather self preds =
     mapE (\<lambda>(px, py).
        bindE (py_index (width self) px) (\<lambda>a.
        bindE (py_index (height self) py) (\<lambda>b. Inr (heatmaps self ! a ! b)))) preds"

text \<open>
  The ground false of PseudoLabelGenerator: \<open>ground_truth.reshape(B, K, -1)\<close> (numpy
  cannot infer the \<open>-1\<close> when \<open>B * K = 0\<close>), \<open>.transpose((0, 2, 1))\<close>,
  \<open>.dot(self.false_matrix)\<close> (the channels must match the matrix),
  \<open>.clip(max=1., min=0.)\<close>, \<open>.transpose((0, 2, 1))\<close> and \<open>.reshape(B, K, H, W)\<close>.
\<close>

definition cross_suppression :: "real list list \<Rightarrow> real tensor4 \<Rightarrow> failure + real tensor4" where
  "cross_suppression M ground_truth =
     (case shape ground_truth of (B, K, H, W) \<Rightarrow>
        if B * K = 0 then Inl ValueError
        else if K \<noteq> length M then Inl ValueError
        else
          let P = H * W;
              flat = map (map concat) (elems ground_truth);
              tr = map (\<lambda>s. map (\<lambda>p. map (\<lambda>k. s ! k ! p) [0..<K]) [0..<P]) flat;
              dot = map (map (\<lambda>row. map (\<lambda>j. sum_list (map (\<lambda>k. row ! k * M ! k ! j) [0..<K]))
                      [0..<length M])) tr;
              clipped = map (map (map clip01)) dot;
              back = map (\<lambda>s. map (\<lambda>j. map (\<lambda>p. s ! p ! j) [0..<P]) [0..<length M]) clipped
          in Inr \<lparr>shape = (B, K, H, W), elems = map (map (chunks H W)) back\<rparr>)"

text \<open>\<open>PseudoLabelGenerator.forward\<close> (and, word for word, \<open>PseudoLabelGenerator02.forward\<close>).\<close>

definition PseudoLabelGenerator_forward ::
  "decoder \<Rightarrow> generator \<Rightarrow> real tensor4 \<Rightarrow> failure + real tensor4 \<times> real tensor4" where
  "PseudoLabelGenerator_forward get_max_preds self y =
     (case shape y of (B, K, H, W) \<Rightarrow>
        bindE (get_max_preds y) (\<lambda>(preds, max_vals).
        bindE (gather self (map (\<lambda>(px, py). (py_int px, py_int py)) (concat preds))) (\<lambda>templates.
        bindE (reshape4 (B, K, H, W) (concat (concat templates))) (\<lambda>ground_truth.
        bindE (cross_suppression (false_matrix self) ground_truth) (\<lambda>ground_false.
        Inr (ground_truth, ground_false))))))"

text \<open>
  \<open>PseudoLabelGenerator01.forward\<close> and \<open>PseudoLabelGenerator03.forward\<close> differ in two
  constants: the divisor of the decoded coordinates (\<open>preds / 4\<close>, \<open>preds / 2\<close>) and the
  side of the returned maps (\<open>reshape(B, K, 16, 16)\<close>, \<open>reshape(B, K, 32, 32)\<close>). Their
  ground false is \<open>(np.ones_like(ground_truth) - ground_truth * 10).clip(max=1., min=0.)\<close>.
\<close>

definition complement :: "real tensor4 \<Rightarrow> real tensor4" where
  "complement ground_truth = tmap (\<lambda>v. clip01 (1 - v * 10)) ground_truth"

definition complement_forward ::
  "real \<Rightarrow> nat \<Rightarrow> decoder \<Rightarrow> generator \<Rightarrow> real tensor4 \<Rightarrow> failure + real tensor4 \<times> real tensor4" where
  "complement_forward divisor side get_max_preds self y =
     (case shape y of (B, K, H, W) \<Rightarrow>
        bindE (get_max_preds y) (\<lambda>(preds, max_vals).
        bindE (gather self
                 (map (\<lambda>(px, py). (py_int (px / divisor), py_int (py / divisor))) (concat preds)))
          (\<lambda>templates.
        bindE (reshape4 (B, K, side, side) (concat (concat templates))) (\<lambda>ground_truth.
        Inr (ground_truth, complement ground_truth)))))"

definition PseudoLabelGenerator01_forward ::
  "decoder \<Rightarrow> generator \<Rightarrow> real tensor4 \<Rightarrow> failure + real tensor4 \<times> real tensor4" where
  "PseudoLabelGenerator01_forward = complement_forward 4 16"

definition PseudoLabelGenerator03_forward ::
  "decoder \<Rightarrow> generator \<Rightarrow> real tensor4 \<Rightarrow> failure + real tensor4 \<times> real tensor4" where
  "PseudoLabelGenerator03_forward = complement_forward 2 32"

subsection \<open>The peak decoder\<close>

text \<open>
  Modelled from the spec: \<open>get_max_preds\<close> of \<open>utils.keypoint_detection\<close>, which is
  missing from the sources. The spec asks for the integer \<open>(x, y)\<close> location of the
  maximum of every \<open>(batch, keypoint)\<close> map and its confidence value, in row-major
  convention, ties broken by first occurrence in scan order (lowest linear index). A map
  without entries has no location.
\<close>

fun argmax_first :: "real list \<Rightarrow> nat" where
  "argmax_first [] = 0"
| "argmax_first (v # vs) = (if \<forall>u\<in>set vs. u \<le> v then 0 else Suc (argmax_first vs))"

definition get_max_preds :: decoder where
  "get_max_preds y =
     (case shape y of (B, K, H, W) \<Rightarrow>
        if H * W = 0 then Inl ValueError
        else Inr (map (map (\<lambda>img. let idx = argmax_first (concat img)
                                   in (real (idx mod W), real (idx div W)))) (elems y),
                  map (map (\<lambda>img. concat img ! argmax_first (concat img))) (elems y)))"

subsection \<open>The regression-disparity loss selectors\<close>

text \<open>
  A selector holds a pseudo-label generator and a criterion, both callables. \<open>forward\<close>
  stores \<open>self.ground_truth\<close> and \<open>self.ground_false\<close> and returns the value of the
  criterion: the model returns the two stored tensors beside that value. The attribute
  \<open>label_x\<close> of some variants is read and never used.
\<close>

type_synonym pseudo_label_generator = "real tensor4 \<Rightarrow> failure + real tensor4 \<times> real tensor4"

definition RegressionDisparity_forward ::
  "pseudo_label_generator \<Rightarrow> (real tensor4 \<Rightarrow> real tensor4 \<Rightarrow> 'w option \<Rightarrow> 'r) \<Rightarrow>
     real tensor4 \<Rightarrow> real tensor4 \<Rightarrow> 'w option \<Rightarrow> string \<Rightarrow>
     failure + (real tensor4 \<times> real tensor4) \<times> 'r" where
  "RegressionDisparity_forward pseudo_label_generator criterion y y_adv weight mode =
     (if mode \<notin> set [''min'', ''max''] then Inl AssertionError
      else bindE (pseudo_label_generator y) (\<lambda>(ground_truth, ground_false).
        Inr ((ground_truth, ground_false),
             if mode = ''min'' then criterion y_adv ground_truth weight
             else criterion y_adv ground_false weight)))"

text \<open>
  \<open>RegressionDisparityx1.forward\<close> replaces the ground false of the generator by
  \<open>(torch.ones_like(ground_truth) - ground_truth * 10).clip(max=1., min=0.)\<close>.
\<close>

definition RegressionDisparityx1_forward ::
  "pseudo_label_generator \<Rightarrow> (real tensor4 \<Rightarrow> real tensor4 \<Rightarrow> 'w option \<Rightarrow> 'r) \<Rightarrow>
     real tensor4 \<Rightarrow> real tensor4 \<Rightarrow> 'w option \<Rightarrow> string \<Rightarrow>
     failure + (real tensor4 \<times> real tensor4) \<times> 'r" where
  "RegressionDisparityx1_forward pseudo_label_generator criterion y y_adv weight mode =
     (if mode \<notin> set [''min'', ''max''] then Inl AssertionError
      else bindE (pseudo_label_generator y) (\<lambda>(ground_truth, ground_false).
        let ground_false = complement ground_truth
        in Inr ((ground_truth, ground_false),
             if mode = ''min'' then criterion y_adv ground_truth weight
             else criterion y_adv ground_false weight)))"








text \<open>
  \<open>RegressionDisparityx4.forward\<close>: \<open>if y_adv2:\<close> asks for the truth value of
  \<open>y_adv2\<close>, which is false for \<open>None\<close> and raises for a tensor unless it has exactly
  one entry; only then is the ground false of the generator replaced by
  \<open>ground_false1 + y_adv2\<close>. Every channel is then divided by its maximum.
\<close>

definition tensor_bool :: "real tensor4 \<Rightarrow> failure + bool" where
  "tensor_bool t =
     (case concat (concat (concat (elems t))) of [v] \<Rightarrow> Inr (v \<noteq> 0) | _ \<Rightarrow> Inl RuntimeError)"

definition RegressionDisparityx4_forward ::
  "pseudo_label_generator \<Rightarrow> (real tensor4 \<Rightarrow> fval tensor4 \<Rightarrow> 'w option \<Rightarrow> 'r) \<Rightarrow>
     real tensor4 \<Rightarrow> real tensor4 \<Rightarrow> 'w option \<Rightarrow> real tensor4 option \<Rightarrow> string \<Rightarrow>
     failure + (real tensor4 \<times> fval tensor4) \<times> 'r" where
  "RegressionDisparityx4_forward pseudo_label_generator criterion y y_adv weight y_adv2 mode =
     (if mode \<notin> set [''min'', ''max''] then Inl AssertionError
      else bindE (pseudo_label_generator y) (\<lambda>(ground_truth, ground_false).
           let ground_false1 = complement ground_truth
           in bindE (case y_adv2 of
                       None \<Rightarrow> Inr ground_false
                     | Some a \<Rightarrow>
                         bindE (tensor_bool a) (\<lambda>truth.
                           if truth then broadcast4 (+) ground_false1 a else Inr ground_false))
                (\<lambda>ground_false.
              bindE (normalize_channels ground_false) (\<lambda>ground_false.
        Inr ((ground_truth, ground_false),
             if mode = ''min'' then criterion y_adv (tmap Fin ground_truth) weight
             else criterion y_adv ground_false weight)))))"

subsection \<open>The combination rule as the specification words it\<close>

text \<open>
  The specification's sequence for the ground false of the higher-order variants: sum the
  ground truth over the keypoint channels, clip to \<open>[0, 1]\<close>, repeat across the \<open>K\<close>
  channels, subtract the ground truth times 10, clip to \<open>[0, 1]\<close>, and optionally divide
  every channel by its maximum.
\<close>

definition spec_ground_false :: "bool \<Rightarrow> real tensor4 \<Rightarrow> failure + fval tensor4" where
  "spec_ground_false renormalize ground_truth =
     (case shape ground_truth of (B, K, H, W) \<Rightarrow>
        let summed = sum_dim1 ground_truth;
            clipped = tmap3 clip01 summed;
            repeated = unsqueeze_repeat K clipped
        in bindE (broadcast4 (-) repeated (tmap (\<lambda>v. v * 10) ground_truth)) (\<lambda>d.
             let c = tmap clip01 d
             in if renormalize then normalize_channels c else Inr (tmap Fin c)))"

subsection \<open>Auxiliary notions for stating the properties\<close>

text \<open>
  The closed form of the entry \<open>heatmaps[mu_x][mu_y][i][j]\<close> for a window of integral
  half-width \<open>t\<close>; the constructor is proved to store exactly these values.
\<close>

definition bump :: "int \<Rightarrow> int \<Rightarrow> nat \<Rightarrow> nat \<Rightarrow> nat \<Rightarrow> nat \<Rightarrow> real" where
  "bump s t mu_x mu_y i j =
     (if \<bar>int j - int mu_x\<bar> \<le> t \<and> \<bar>int i - int mu_y\<bar> \<le> t
      then exp (- ((real_of_int (int j - int mu_x)) ^ 2 + (real_of_int (int i - int mu_y)) ^ 2)
                  / (2 * (real_of_int s) ^ 2))
      else 0)"

text \<open>The Euclidean distance of the pixel \<open>(iy, ix)\<close> from the peak \<open>(y, x)\<close>.\<close>

definition euclid :: "nat \<Rightarrow> nat \<Rightarrow> nat \<Rightarrow> nat \<Rightarrow> real" where
  "euclid x y ix iy = sqrt ((real ix - real x) ^ 2 + (real iy - real y) ^ 2)"

text \<open>The truncation window of half-width \<open>t\<close> around the peak \<open>(y, x)\<close>.\<close>

definition in_window :: "int \<Rightarrow> nat \<Rightarrow> nat \<Rightarrow> nat \<Rightarrow> nat \<Rightarrow> bool" where
  "in_window t x y ix iy = (\<bar>int ix - int x\<bar> \<le> t \<and> \<bar>int iy - int y\<bar> \<le> t)"

text \<open>An image of shape \<open>(h, w)\<close> with all entries in \<open>[0, 1]\<close>.\<close>

definition unit_image :: "nat \<Rightarrow> nat \<Rightarrow> real list list \<Rightarrow> bool" where
  "unit_image h w img =
     (length img = h \<and> (\<forall>r\<in>set img. length r = w \<and> (\<forall>v\<in>set r. 0 \<le> v \<and> v \<le> 1)))"

text \<open>A tensor with all entries in \<open>[0, 1]\<close>.\<close>

definition unit_tensor :: "real tensor4 \<Rightarrow> bool" where
  "unit_tensor t = (\<forall>s\<in>set (elems t). \<forall>c\<in>set s. \<forall>r\<in>set c. \<forall>v\<in>set r. 0 \<le> v \<and> v \<le> 1)"

section \<open>Properties\<close>

subsection \<open>Lists, slices and failures\<close>

lemma mapE_Inr:
  assumes "\<And>x. x \<in> set xs \<Longrightarrow> f x = Inr (g x)"
  shows "mapE f xs = Inr (map g xs)"
  using assms by (induction xs) simp_all

lemma mapE_Inr_D:
  "mapE f xs = Inr ys \<Longrightarrow> length ys = length xs \<and> (\<forall>i<length xs. f (xs ! i) = Inr (ys ! i))"
proof (induction xs arbitrary: ys)
  case Nil
  then show ?case by simp
next
  case (Cons x xs)
  from Cons.prems obtain z zs where z: "f x = Inr z" and zs: "mapE f xs = Inr zs" and ys: "ys = z # zs"
    by (auto split: sum.splits)
  from Cons.IH[OF zs] show ?case using z ys by (auto simp: nth_Cons split: nat.splits)
qed

lemma bindE_Inr_iff: "bindE m f = Inr r \<longleftrightarrow> (\<exists>v. m = Inr v \<and> f v = Inr r)"
  by (cases m) (simp_all add: bindE_def)

lemma bindE_Inr [simp]: "bindE (Inr v) f = f v"
  by (simp add: bindE_def)


lemma length_chunks [simp]: "length (chunks m n xs) = m"
  by (induction m arbitrary: xs) simp_all

lemma chunks_rows: "length xs = m * n \<Longrightarrow> \<forall>r\<in>set (chunks m n xs). length r = n"
proof (induction m arbitrary: xs)
  case 0
  then show ?case by simp
next
  case (Suc m)
  have "length (drop n xs) = m * n" using Suc.prems by simp
  from Suc.IH[OF this] show ?case using Suc.prems by simp
qed

lemma concat_chunks: "length xs = m * n \<Longrightarrow> concat (chunks m n xs) = xs"
  by (induction m arbitrary: xs) auto

lemma chunks_concat:
  "length xss = m \<Longrightarrow> \<forall>r\<in>set xss. length r = n \<Longrightarrow> chunks m n (concat xss) = xss"
  by (induction xss arbitrary: m) auto

lemma length_concat_regular: "\<forall>r\<in>set xss. length r = n \<Longrightarrow> length (concat xss) = length xss * n"
  by (induction xss) auto

lemma concat_nth_regular:
  "\<forall>r\<in>set xss. length r = n \<Longrightarrow> i < length xss \<Longrightarrow> j < n \<Longrightarrow> concat xss ! (i * n + j) = xss ! i ! j"
proof (induction xss arbitrary: i)
  case Nil
  then show ?case by simp
next
  case (Cons r xss)
  show ?case
  proof (cases i)
    case 0
    then show ?thesis using Cons.prems by (simp add: nth_append)
  next
    case (Suc i')
    then have "concat (r # xss) ! (i * n + j) = concat xss ! (i' * n + j)"
      using Cons.prems by (simp add: nth_append)
    then show ?thesis using Cons.IH[of i'] Cons.prems Suc by simp
  qed
qed

lemma chunks_nth:
  "length xs = m * n \<Longrightarrow> i < m \<Longrightarrow> j < n \<Longrightarrow> chunks m n xs ! i ! j = xs ! (i * n + j)"
  using concat_nth_regular[of "chunks m n xs" n i j] chunks_rows[of xs m n] concat_chunks[of xs m n]
  by simp

lemma argmax_first_unique:
  "p < length xs \<Longrightarrow> \<forall>i<length xs. i \<noteq> p \<longrightarrow> xs ! i < xs ! p \<Longrightarrow> argmax_first xs = p"
proof (induction xs arbitrary: p)
  case Nil
  then show ?case by simp
next
  case (Cons v vs)
  show ?case
  proof (cases p)
    case 0
    have "\<forall>u\<in>set vs. u \<le> v"
    proof
      fix u assume "u \<in> set vs"
      then obtain i where "i < length vs" "vs ! i = u" by (auto simp: in_set_conv_nth)
      then show "u \<le> v" using Cons.prems(2)[rule_format, of "Suc i"] 0 by simp
    qed
    then show ?thesis using 0 by simp
  next
    case (Suc p')
    have lt: "v < vs ! p'" using Cons.prems(2)[rule_format, of 0] Suc by simp
    have "vs ! p' \<in> set vs" using Cons.prems(1) Suc by simp
    then have "\<not> (\<forall>u\<in>set vs. u \<le> v)" using lt by force
    moreover have "argmax_first vs = p'"
    proof (rule Cons.IH)
      show "p' < length vs" using Cons.prems(1) Suc by simp
      show "\<forall>i<length vs. i \<noteq> p' \<longrightarrow> vs ! i < vs ! p'"
        using Cons.prems(2)[rule_format, of "Suc _"] Suc by simp
    qed
    ultimately show ?thesis using Suc by simp
  qed
qed

subsection \<open>The entries of the template bank\<close>

lemma slice_index_le: "slice_index n i \<le> n"
  unfolding slice_index_def by (cases "i < 0") auto

lemma length_slice: "length (slice xs s) = slice_len (length xs) s"
  using slice_index_le[of "length xs" "snd s"]
  by (simp add: slice_def slice_len_def)

lemma nth_slice: "i < slice_len (length xs) s \<Longrightarrow> slice xs s ! i = xs ! (slice_index (length xs) (fst s) + i)"
  using slice_index_le[of "length xs" "snd s"]
  by (simp add: slice_def slice_len_def)

lemma length_gaussian: "0 \<le> t \<Longrightarrow> length (gaussian s (real_of_int t)) = nat (2 * t + 1)"
proof -
  have "\<lceil>2 * real_of_int t + 1\<rceil> = 2 * t + 1"
    by (metis ceiling_of_int of_int_1 of_int_add of_int_mult of_int_numeral)
  then show ?thesis by (simp add: gaussian_def Let_def)
qed

lemma gaussian_nth:
  assumes "0 \<le> t" "a < nat (2 * t + 1)" "b < nat (2 * t + 1)"
  shows "gaussian s (real_of_int t) ! a ! b =
     exp (- ((real_of_int (int b - t)) ^ 2 + (real_of_int (int a - t)) ^ 2) / (2 * (real_of_int s) ^ 2))"
proof -
  have c: "\<lceil>2 * real_of_int t + 1\<rceil> = 2 * t + 1"
    by (metis ceiling_of_int of_int_1 of_int_add of_int_mult of_int_numeral)
  have "\<lfloor>(2 * real_of_int t + 1) / 2\<rfloor> = \<lfloor>real_of_int (2 * t + 1) / real_of_int 2\<rfloor>" by simp
  also have "\<dots> = (2 * t + 1) div 2" by (rule floor_divide_of_int_eq)
  also have "\<dots> = t" by simp
  finally have f: "\<lfloor>(2 * real_of_int t + 1) / 2\<rfloor> = t" .
  have c2: "\<lceil>2 * real_of_int t\<rceil> = 2 * t"
    by (metis ceiling_of_int of_int_mult of_int_numeral)
  show ?thesis using assms by (simp add: gaussian_def Let_def c c2 f)
qed

lemma py_int_of_int: "py_int (real_of_int z) = z"
  by (simp add: py_int_def)

lemma window_index:
  assumes "0 \<le> t" "mu < n"
  shows "slice_index n (max 0 (int mu - t)) = nat (max 0 (int mu - t))"
    and "slice_len n (max 0 (int mu - t), min (int mu + t + 1) (int n)) = nat (min (int mu + t + 1) (int n) - max 0 (int mu - t))"
    and "slice_index (nat (2 * t + 1)) (max 0 (- (int mu - t))) = nat (max 0 (t - int mu))"
    and "slice_len (nat (2 * t + 1)) (max 0 (- (int mu - t)), min (int mu + t + 1) (int n) - (int mu - t)) = nat (min (int mu + t + 1) (int n) - max 0 (int mu - t))"
  using assms by (auto simp: slice_index_def slice_len_def)

lemma window_member:
  assumes "0 \<le> t" "mu < n" "j < n"
  shows "(nat (max 0 (int mu - t)) \<le> j \<and> j < nat (max 0 (int mu - t)) + nat (min (int mu + t + 1) (int n) - max 0 (int mu - t))) \<longleftrightarrow> \<bar>int j - int mu\<bar> \<le> t"
  using assms by auto

lemma window_offset:
  assumes "0 \<le> t" "mu < n" "j < n" "\<bar>int j - int mu\<bar> \<le> t"
  shows "int (nat (max 0 (t - int mu)) + (j - nat (max 0 (int mu - t)))) - t = int j - int mu"
    and "j - nat (max 0 (int mu - t)) < nat (min (int mu + t + 1) (int n) - max 0 (int mu - t))"
    and "nat (max 0 (t - int mu)) + (j - nat (max 0 (int mu - t))) < nat (2 * t + 1)"
  using assms by auto

lemma slice2_nth:
  assumes "a < slice_len (length g) ys" "\<forall>row\<in>set g. length row = n" "b < slice_len n xs"
  shows "slice2 g ys xs ! a ! b = g ! (slice_index (length g) (fst ys) + a) ! (slice_index n (fst xs) + b)"
proof -
  have la: "slice_index (length g) (fst ys) + a < length g"
    using assms(1) slice_index_le[of "length g" "snd ys"] by (simp add: slice_len_def)
  have r: "slice g ys ! a = g ! (slice_index (length g) (fst ys) + a)"
    using assms(1) by (rule nth_slice)
  have len: "length (g ! (slice_index (length g) (fst ys) + a)) = n"
    using la assms(2) by simp
  have "slice2 g ys xs ! a = slice (slice g ys ! a) xs"
    using assms(1) by (simp add: slice2_def length_slice)
  then show ?thesis using r len assms(3) by (simp add: nth_slice)
qed

lemma gaussian_rows: "0 \<le> t \<Longrightarrow> \<forall>row\<in>set (gaussian s (real_of_int t)). length row = nat (2 * t + 1)"
proof -
  assume "0 \<le> t"
  have c: "\<lceil>2 * real_of_int t + 1\<rceil> = 2 * t + 1"
    by (metis ceiling_of_int of_int_1 of_int_add of_int_mult of_int_numeral)
  have c2: "\<lceil>2 * real_of_int t\<rceil> = 2 * t"
    by (metis ceiling_of_int of_int_mult of_int_numeral)
  show ?thesis by (simp add: gaussian_def Let_def c c2)
qed

lemma assign_slice2_cells:
  assumes "slice_len h ys = ny" "slice_len w xs = nx" "slice_index h (fst ys) = y0" "slice_index w (fst xs) = x0"
    and "fst sh = ny" "snd sh = nx"
    and "\<And>i j. i < h \<Longrightarrow> j < w \<Longrightarrow>
          (if y0 \<le> i \<and> i < y0 + ny \<and> x0 \<le> j \<and> j < x0 + nx
           then v ! (if ny = 1 then 0 else i - y0) ! (if nx = 1 then 0 else j - x0)
           else a ! i ! j) = f i j"
  shows "assign_slice2 h w a ys xs sh v = Inr (map (\<lambda>i. map (\<lambda>j. f i j) [0..<w]) [0..<h])"
  unfolding assign_slice2_def Let_def assms(1-6) using assms(7) by simp

lemma heatmap_entry_eq:
  assumes s: "s \<noteq> 0" and t: "0 \<le> t" and mx: "mu_x < W" and my: "mu_y < H"
  shows "heatmap_entry W H s (real_of_int t) mu_x mu_y =
           Inr (map (\<lambda>i. map (\<lambda>j. bump s t mu_x mu_y i j) [0..<W]) [0..<H])"
proof -
  define g where "g = gaussian s (real_of_int t)"
  define n where "n = nat (2 * t + 1)"
  define gx where "gx = (max 0 (- (int mu_x - t)), min (int mu_x + t + 1) (int W) - (int mu_x - t))"
  define gy where "gy = (max 0 (- (int mu_y - t)), min (int mu_y + t + 1) (int H) - (int mu_y - t))"
  define ix where "ix = (max 0 (int mu_x - t), min (int mu_x + t + 1) (int W))"
  define iy where "iy = (max 0 (int mu_y - t), min (int mu_y + t + 1) (int H))"
  define nx where "nx = nat (min (int mu_x + t + 1) (int W) - max 0 (int mu_x - t))"
  define ny where "ny = nat (min (int mu_y + t + 1) (int H) - max 0 (int mu_y - t))"
  define x0 where "x0 = nat (max 0 (int mu_x - t))"
  define y0 where "y0 = nat (max 0 (int mu_y - t))"
  define a0 where "a0 = nat (max 0 (t - int mu_y))"
  define b0 where "b0 = nat (max 0 (t - int mu_x))"
  have p1: "py_int (real mu_x - real_of_int t) = int mu_x - t" "py_int (real mu_y - real_of_int t) = int mu_y - t"
    "py_int (real mu_x + real_of_int t + 1) = int mu_x + t + 1" "py_int (real mu_y + real_of_int t + 1) = int mu_y + t + 1"
    using py_int_of_int[of "int mu_x - t"] py_int_of_int[of "int mu_y - t"]
      py_int_of_int[of "int mu_x + t + 1"] py_int_of_int[of "int mu_y + t + 1"]
    by simp_all
  have lg: "length g = n" unfolding g_def n_def using t by (rule length_gaussian)
  have rg: "\<forall>row\<in>set g. length row = n" unfolding g_def n_def using t by (rule gaussian_rows)
  note wx = window_index[OF t mx] and wy = window_index[OF t my]
  have unfold: "heatmap_entry W H s (real_of_int t) mu_x mu_y =
      assign_slice2 H W (zeros2 H W) iy ix (slice_len (length g) gy, slice_len (length g) gx) (slice2 g gy gx)"
    unfolding heatmap_entry_def Let_def p1 fst_conv snd_conv g_def gx_def gy_def ix_def iy_def
    using s by (simp only: if_False)
  have shp: "slice_len n gy = ny" "slice_len n gx = nx" "slice_len H iy = ny" "slice_len W ix = nx"
    unfolding n_def gy_def gx_def iy_def ix_def ny_def nx_def
    by (rule wy(4), rule wx(4), rule wy(2), rule wx(2))
  have st: "slice_index H (fst iy) = y0" "slice_index W (fst ix) = x0"
    unfolding iy_def ix_def y0_def x0_def fst_conv by (rule wy(1), rule wx(1))
  have sg: "slice_index n (fst gy) = a0" "slice_index n (fst gx) = b0"
    unfolding gy_def gx_def n_def a0_def b0_def fst_conv by (rule wy(3), rule wx(3))
  have cell: "(if y0 \<le> i \<and> i < y0 + ny \<and> x0 \<le> j \<and> j < x0 + nx
       then slice2 g gy gx ! (if ny = 1 then 0 else i - y0) ! (if nx = 1 then 0 else j - x0)
       else zeros2 H W ! i ! j) = bump s t mu_x mu_y i j" if i: "i < H" and j: "j < W" for i j
  proof (cases "\<bar>int j - int mu_x\<bar> \<le> t \<and> \<bar>int i - int mu_y\<bar> \<le> t")
    case True
    then have inx: "\<bar>int j - int mu_x\<bar> \<le> t" and iny: "\<bar>int i - int mu_y\<bar> \<le> t" by simp_all
    note ox = window_offset[OF t mx j inx, folded b0_def x0_def nx_def n_def]
      and oy = window_offset[OF t my i iny, folded a0_def y0_def ny_def n_def]
    have mem: "y0 \<le> i \<and> i < y0 + ny \<and> x0 \<le> j \<and> j < x0 + nx"
      using window_member[OF t mx j, folded x0_def nx_def] window_member[OF t my i, folded y0_def ny_def] inx iny
      by blast
    have idx: "(if ny = 1 then 0 else i - y0) = i - y0" "(if nx = 1 then 0 else j - x0) = j - x0"
      using ox(2) oy(2) by auto
    have a: "i - y0 < slice_len (length g) gy" using oy(2) shp(1) lg by simp
    have b: "j - x0 < slice_len n gx" using ox(2) shp(2) by simp
    have "slice2 g gy gx ! (i - y0) ! (j - x0) =
        g ! (slice_index (length g) (fst gy) + (i - y0)) ! (slice_index n (fst gx) + (j - x0))"
      using a rg b by (rule slice2_nth)
    also have "\<dots> = g ! (a0 + (i - y0)) ! (b0 + (j - x0))"
      unfolding lg sg by (rule refl)
    also have "\<dots> = exp (- ((real_of_int (int (b0 + (j - x0)) - t)) ^ 2
          + (real_of_int (int (a0 + (i - y0)) - t)) ^ 2) / (2 * (real_of_int s) ^ 2))"
      unfolding g_def using t oy(3)[unfolded n_def] ox(3)[unfolded n_def] by (rule gaussian_nth)
    also have "\<dots> = bump s t mu_x mu_y i j"
      unfolding ox(1) oy(1) bump_def if_P[OF True] by (rule refl)
    finally have "slice2 g gy gx ! (i - y0) ! (j - x0) = bump s t mu_x mu_y i j" .
    then show ?thesis unfolding if_P[OF mem] idx .
  next
    case False
    then have nm: "\<not> (y0 \<le> i \<and> i < y0 + ny \<and> x0 \<le> j \<and> j < x0 + nx)"
      using window_member[OF t mx j, folded x0_def nx_def] window_member[OF t my i, folded y0_def ny_def] by blast
    have "zeros2 H W ! i ! j = 0" using i j by (simp add: zeros2_def)
    then show ?thesis unfolding if_not_P[OF nm] bump_def if_not_P[OF False] .
  qed
  have "assign_slice2 H W (zeros2 H W) iy ix (slice_len (length g) gy, slice_len (length g) gx) (slice2 g gy gx)
      = Inr (map (\<lambda>i. map (\<lambda>j. bump s t mu_x mu_y i j) [0..<W]) [0..<H])"
    by (rule assign_slice2_cells[where ny = ny and nx = nx and ?y0.0 = y0 and ?x0.0 = x0])
       (simp_all only: shp st lg fst_conv snd_conv cell)
  then show ?thesis using unfold by simp
qed

lemma gaussian_general:
  "length (gaussian s tmp) = nat \<lceil>2 * tmp + 1\<rceil>"
  "\<forall>r\<in>set (gaussian s tmp). length r = nat \<lceil>2 * tmp + 1\<rceil> \<and> (\<forall>v\<in>set r. 0 \<le> v \<and> v \<le> 1)"
  by (auto simp: gaussian_def Let_def divide_nonpos_nonneg)

lemma set_slice: "set (slice xs s) \<subseteq> set xs"
  unfolding slice_def by (meson order_trans set_drop_subset set_take_subset)

lemma slice2_general:
  assumes "\<forall>r\<in>set g. length r = n \<and> (\<forall>v\<in>set r. P v)"
  shows "length (slice2 g ys xs) = slice_len (length g) ys"
    and "\<forall>r\<in>set (slice2 g ys xs). length r = slice_len n xs \<and> (\<forall>v\<in>set r. P v)"
proof -
  show "length (slice2 g ys xs) = slice_len (length g) ys"
    by (simp add: slice2_def length_slice)
  show "\<forall>r\<in>set (slice2 g ys xs). length r = slice_len n xs \<and> (\<forall>v\<in>set r. P v)"
  proof
    fix r assume "r \<in> set (slice2 g ys xs)"
    then obtain r0 where r0: "r0 \<in> set (slice g ys)" and r: "r = slice r0 xs"
      by (auto simp: slice2_def)
    have "r0 \<in> set g" by (rule subsetD[OF set_slice r0])
    with assms have l: "length r0 = n" and p: "\<forall>v\<in>set r0. P v" by simp_all
    have "length r = slice_len n xs" unfolding r length_slice l by (rule refl)
    moreover have "\<forall>v\<in>set r. P v"
    proof
      fix v assume "v \<in> set r"
      then have "v \<in> set r0" unfolding r by (rule subsetD[OF set_slice])
      then show "P v" using p by simp
    qed
    ultimately show "length r = slice_len n xs \<and> (\<forall>v\<in>set r. P v)" by simp
  qed
qed

lemma assign_slice2_general:
  assumes res: "assign_slice2 h w a ys xs sh v = Inr img"
    and lv: "length v = fst sh" and rv: "\<forall>r\<in>set v. length r = snd sh \<and> (\<forall>x\<in>set r. P x)"
    and pa: "\<And>i j. i < h \<Longrightarrow> j < w \<Longrightarrow> P (a ! i ! j)"
  shows "length img = h \<and> (\<forall>r\<in>set img. length r = w \<and> (\<forall>x\<in>set r. P x))"
proof -
  define y0 where "y0 = slice_index h (fst ys)"
  define ny where "ny = slice_len h ys"
  define x0 where "x0 = slice_index w (fst xs)"
  define nx where "nx = slice_len w xs"
  define cell where "cell = (\<lambda>i j. if y0 \<le> i \<and> i < y0 + ny \<and> x0 \<le> j \<and> j < x0 + nx
         then v ! (if fst sh = 1 then 0 else i - y0) ! (if snd sh = 1 then 0 else j - x0)
         else a ! i ! j)"
  have compat: "(fst sh = ny \<or> fst sh = 1) \<and> (snd sh = nx \<or> snd sh = 1)"
    and img: "img = map (\<lambda>i. map (\<lambda>j. cell i j) [0..<w]) [0..<h]"
    using res unfolding assign_slice2_def Let_def y0_def ny_def x0_def nx_def cell_def
    by (auto split: if_splits)
  have pc: "P (cell i j)" if i: "i < h" and j: "j < w" for i j
  proof (cases "y0 \<le> i \<and> i < y0 + ny \<and> x0 \<le> j \<and> j < x0 + nx")
    case True
    define ia where "ia = (if fst sh = 1 then 0 else i - y0)"
    define jb where "jb = (if snd sh = 1 then 0 else j - x0)"
    have "ia < fst sh" using compat True unfolding ia_def by auto
    then have m: "v ! ia \<in> set v" using lv by simp
    have "jb < snd sh" using compat True unfolding jb_def by auto
    then have "v ! ia ! jb \<in> set (v ! ia)" using rv m by simp
    then have "P (v ! ia ! jb)" using rv m by blast
    moreover have "cell i j = v ! ia ! jb"
      unfolding cell_def ia_def jb_def if_P[OF True] by (rule refl)
    ultimately show ?thesis by simp
  next
    case False
    have "cell i j = a ! i ! j" unfolding cell_def if_not_P[OF False] by (rule refl)
    then show ?thesis using pa[OF i j] by simp
  qed
  show ?thesis unfolding img using pc by auto
qed

lemma heatmap_entry_unit:
  assumes "heatmap_entry W H s tmp mu_x mu_y = Inr img"
  shows "unit_image H W img"
proof -
  let ?g = "gaussian s tmp"
  have "s \<noteq> 0" using assms unfolding heatmap_entry_def Let_def by (cases "s = 0") simp_all
  then have "\<exists>ys xs gy gx. assign_slice2 H W (zeros2 H W) ys xs
      (slice_len (length ?g) gy, slice_len (length ?g) gx) (slice2 ?g gy gx) = Inr img"
    using assms unfolding heatmap_entry_def Let_def by (simp only: if_False) blast
  then obtain ys xs gy gx where
    res: "assign_slice2 H W (zeros2 H W) ys xs (slice_len (length ?g) gy, slice_len (length ?g) gx) (slice2 ?g gy gx) = Inr img"
    by blast
  note g = gaussian_general[of s tmp]
  have rg: "\<forall>r\<in>set ?g. length r = length ?g \<and> (\<forall>v\<in>set r. 0 \<le> v \<and> v \<le> 1)"
    using g by simp
  note sl = slice2_general[OF rg, of gy gx]
  have "length img = H \<and> (\<forall>r\<in>set img. length r = W \<and> (\<forall>x\<in>set r. 0 \<le> x \<and> x \<le> 1))"
  proof (rule assign_slice2_general[OF res])
    show "length (slice2 ?g gy gx) = fst (slice_len (length ?g) gy, slice_len (length ?g) gx)"
      using sl(1) by simp
    show "\<forall>r\<in>set (slice2 ?g gy gx). length r = snd (slice_len (length ?g) gy, slice_len (length ?g) gx)
          \<and> (\<forall>x\<in>set r. 0 \<le> x \<and> x \<le> 1)"
      using sl(2) by simp
    show "0 \<le> zeros2 H W ! i ! j \<and> zeros2 H W ! i ! j \<le> 1" if "i < H" "j < W" for i j
      using that by (simp add: zeros2_def)
  qed
  then show ?thesis by (simp add: unit_image_def)
qed

lemma build_heatmaps_D:
  assumes "build_heatmaps W H s tmp = Inr hm"
  shows "length hm = W"
    and "\<And>x. x < W \<Longrightarrow> length (hm ! x) = H"
    and "\<And>x y. x < W \<Longrightarrow> y < H \<Longrightarrow> heatmap_entry W H s tmp x y = Inr (hm ! x ! y)"
proof -
  from mapE_Inr_D[OF assms[unfolded build_heatmaps_def]]
  have l: "length hm = W"
    and e: "\<And>x. x < W \<Longrightarrow> mapE (\<lambda>mu_y. heatmap_entry W H s tmp x mu_y) [0..<H] = Inr (hm ! x)"
    by simp_all
  show "length hm = W" by (rule l)
  show "length (hm ! x) = H" if "x < W" for x
    using mapE_Inr_D[OF e[OF that]] by simp
  show "heatmap_entry W H s tmp x y = Inr (hm ! x ! y)" if "x < W" "y < H" for x y
    using mapE_Inr_D[OF e[OF that(1)]] that(2) by simp
qed

lemma generator_init_D:
  assumes "generator_init tmp K H W s = Inr gen"
  shows "height gen = H" "width gen = W" "sigma gen = s" "false_matrix gen = make_false_matrix K"
    and "build_heatmaps W H s tmp = Inr (heatmaps gen)"
  using assms unfolding generator_init_def by (auto split: sum.splits)

lemma build_heatmaps_integral:
  assumes "s \<noteq> 0" "0 \<le> t"
  shows "build_heatmaps W H s (real_of_int t) =
     Inr (map (\<lambda>x. map (\<lambda>y. map (\<lambda>i. map (\<lambda>j. bump s t x y i j) [0..<W]) [0..<H]) [0..<H]) [0..<W])"
  unfolding build_heatmaps_def
  by (intro mapE_Inr) (simp add: heatmap_entry_eq[OF assms])

lemma PseudoLabelGenerator_init_bank:
  assumes "0 < s"
  shows "PseudoLabelGenerator_init K H W s = Inr \<lparr>height = H, width = W, sigma = s,
      heatmaps = map (\<lambda>x. map (\<lambda>y. map (\<lambda>i. map (\<lambda>j. bump s (3 * s) x y i j) [0..<W]) [0..<H]) [0..<H]) [0..<W],
      false_matrix = make_false_matrix K\<rparr>"
proof -
  have eq: "real_of_int s * 3 = real_of_int (3 * s)" by simp
  have b: "build_heatmaps W H s (real_of_int (3 * s)) =
     Inr (map (\<lambda>x. map (\<lambda>y. map (\<lambda>i. map (\<lambda>j. bump s (3 * s) x y i j) [0..<W]) [0..<H]) [0..<H]) [0..<W])"
    using assms by (intro build_heatmaps_integral) simp_all
  show ?thesis
    unfolding PseudoLabelGenerator_init_def generator_init_def eq b by simp
qed

lemma bump_in: "in_window t x y ix iy \<Longrightarrow>
   bump s t x y iy ix = exp (- ((real ix - real x) ^ 2 + (real iy - real y) ^ 2) / (2 * (real_of_int s) ^ 2))"
  by (simp add: bump_def in_window_def)

lemma bump_out: "\<not> in_window t x y ix iy \<Longrightarrow> bump s t x y iy ix = 0"
  by (auto simp add: bump_def in_window_def)

lemma bump_nonneg: "0 \<le> bump s t x y iy ix"
  by (simp add: bump_def)

lemma bump_le_one: "bump s t x y iy ix \<le> 1"
  by (simp add: bump_def divide_nonpos_nonneg)

lemma bump_center: "0 \<le> t \<Longrightarrow> bump s t x y y x = 1"
  by (simp add: bump_def)

lemma bump_lt_one:
  assumes "s \<noteq> 0" "ix \<noteq> x \<or> iy \<noteq> y"
  shows "bump s t x y iy ix < 1"
proof (cases "in_window t x y ix iy")
  case True
  have "0 < (real ix - real x) ^ 2 + (real iy - real y) ^ 2"
    using assms(2) by (auto simp: sum_power2_gt_zero_iff)
  moreover have "0 < 2 * (real_of_int s) ^ 2" using assms(1) by simp
  ultimately have "- ((real ix - real x) ^ 2 + (real iy - real y) ^ 2) / (2 * (real_of_int s) ^ 2) < 0"
    by (simp add: divide_neg_pos)
  then show ?thesis unfolding bump_in[OF True] by simp
next
  case False
  then show ?thesis by (simp add: bump_out)
qed

lemma euclid_sq: "(euclid x y ix iy) ^ 2 = (real ix - real x) ^ 2 + (real iy - real y) ^ 2"
  by (simp add: euclid_def)

lemma bump_antimono:
  assumes "s \<noteq> 0" "in_window t x y ix iy" "in_window t x y ix' iy'"
  shows "euclid x y ix iy \<le> euclid x y ix' iy' \<longleftrightarrow> bump s t x y iy' ix' \<le> bump s t x y iy ix"
    and "euclid x y ix iy < euclid x y ix' iy' \<longleftrightarrow> bump s t x y iy' ix' < bump s t x y iy ix"
proof -
  define a where "a = (real ix - real x) ^ 2 + (real iy - real y) ^ 2"
  define b where "b = (real ix' - real x) ^ 2 + (real iy' - real y) ^ 2"
  define c where "c = 2 * (real_of_int s) ^ 2"
  have c: "0 < c" using assms(1) by (simp add: c_def)
  have e: "euclid x y ix iy = sqrt a" "euclid x y ix' iy' = sqrt b"
    by (simp_all add: euclid_def a_def b_def)
  have v: "bump s t x y iy ix = exp (- a / c)" "bump s t x y iy' ix' = exp (- b / c)"
    unfolding a_def b_def c_def by (rule bump_in[OF assms(2)], rule bump_in[OF assms(3)])
  have d1: "- b / c \<le> - a / c \<longleftrightarrow> a \<le> b" using c by (simp add: divide_le_cancel)
  have d2: "- b / c < - a / c \<longleftrightarrow> a < b" using c by (simp add: divide_less_cancel)
  show "euclid x y ix iy \<le> euclid x y ix' iy' \<longleftrightarrow> bump s t x y iy' ix' \<le> bump s t x y iy ix"
    unfolding e v using d1 by simp
  show "euclid x y ix iy < euclid x y ix' iy' \<longleftrightarrow> bump s t x y iy' ix' < bump s t x y iy ix"
    unfolding e v using d2 by simp
qed

lemma window_radius:
  assumes "0 \<le> t" "in_window t x y ix iy"
  shows "euclid x y ix iy \<le> sqrt 2 * real_of_int t"
proof -
  define dx where "dx = real ix - real x"
  define dy where "dy = real iy - real y"
  define r where "r = real_of_int t"
  have "\<bar>real_of_int (int ix - int x)\<bar> \<le> real_of_int t" "\<bar>real_of_int (int iy - int y)\<bar> \<le> real_of_int t"
    using assms(2) unfolding in_window_def by linarith+
  then have ax: "\<bar>dx\<bar> \<le> r" and ay: "\<bar>dy\<bar> \<le> r" by (simp_all add: dx_def dy_def r_def)
  have r: "0 \<le> r" using assms(1) by (simp add: r_def)
  have "dx ^ 2 \<le> r ^ 2" using ax r by (simp add: abs_le_square_iff[symmetric])
  moreover have "dy ^ 2 \<le> r ^ 2" using ay r by (simp add: abs_le_square_iff[symmetric])
  ultimately have "dx ^ 2 + dy ^ 2 \<le> 2 * r ^ 2" by simp
  then have "sqrt (dx ^ 2 + dy ^ 2) \<le> sqrt (2 * r ^ 2)" by simp
  also have "\<dots> = sqrt 2 * r" using r by (simp add: real_sqrt_mult)
  finally show ?thesis by (simp add: euclid_def dx_def dy_def r_def)
qed

lemma bank_nth:
  assumes "PseudoLabelGenerator_init K H W s = Inr gen" "0 < s" "x < W" "y < H" "iy < H" "ix < W"
  shows "heatmaps gen ! x ! y ! iy ! ix = bump s (3 * s) x y iy ix"
  using assms(1) unfolding PseudoLabelGenerator_init_bank[OF assms(2)]
  using assms(3-6) by auto

subsection \<open>The constructors succeed for a non-zero \<open>sigma\<close>\<close>

lemma window_fits:
  fixes ul br :: int and n W mu :: nat
  assumes "ul \<le> int mu" "mu < W" "int mu + 1 \<le> br" "br - ul \<le> int n" "- ul \<le> int n"
  shows "slice_len n (max 0 (- ul), min br (int W) - ul) = slice_len W (max 0 ul, min br (int W))"
proof -
  define m where "m = min br (int W)"
  have m: "int mu + 1 \<le> m" "m \<le> int W" "m - ul \<le> int n" "0 < m - ul" "0 < m"
    using assms unfolding m_def by auto
  have a: "slice_index n (m - ul) = nat (m - ul)"
    using m(3,4) by (simp add: slice_index_def)
  have b: "slice_index W m = nat m"
    using m(2,5) by (simp add: slice_index_def)
  show ?thesis
  proof (cases "0 \<le> ul")
    case True
    have c: "max 0 (- ul) = 0" "max 0 ul = ul" using True by simp_all
    have d: "slice_index n 0 = 0" by (simp add: slice_index_def)
    have e: "slice_index W ul = nat ul" using True assms(1,2) by (simp add: slice_index_def)
    have "nat (m - ul) = nat m - nat ul" using True m(4) by (simp add: nat_diff_distrib)
    then show ?thesis unfolding slice_len_def fst_conv snd_conv m_def[symmetric] c a b d e by simp
  next
    case False
    have c: "max 0 (- ul) = - ul" "max 0 ul = 0" using False by simp_all
    have d: "slice_index W 0 = 0" by (simp add: slice_index_def)
    have e: "slice_index n (- ul) = nat (- ul)" using False assms(5) by (simp add: slice_index_def)
    have "nat (m - ul) - nat (- ul) = nat m" using False m(5) by linarith
    then show ?thesis unfolding slice_len_def fst_conv snd_conv m_def[symmetric] c a b d e by simp
  qed
qed

lemma py_int_bounds:
  assumes "0 \<le> tmp"
  shows "py_int (real mu - tmp) \<le> int mu"
    and "int mu + 1 \<le> py_int (real mu + tmp + 1)"
    and "py_int (real mu + tmp + 1) - py_int (real mu - tmp) \<le> int (nat \<lceil>2 * tmp + 1\<rceil>)"
    and "- py_int (real mu - tmp) \<le> int (nat \<lceil>2 * tmp + 1\<rceil>)"
proof -
  define a where "a = real mu - tmp"
  define b where "b = real mu + tmp + 1"
  have n: "int (nat \<lceil>2 * tmp + 1\<rceil>) = \<lceil>2 * tmp + 1\<rceil>" using assms by simp
  have bpos: "0 \<le> b" using assms by (simp add: b_def)
  have pb: "py_int b = \<lfloor>b\<rfloor>" using bpos by (simp add: py_int_def)
  have pa: "py_int a \<le> \<lceil>a\<rceil>" "\<lfloor>a\<rfloor> \<le> py_int a" by (auto simp: py_int_def)
  have "\<lceil>a\<rceil> \<le> int mu" using assms unfolding a_def by (simp add: ceiling_le_iff)
  then show "py_int (real mu - tmp) \<le> int mu" using pa(1) unfolding a_def by linarith
  have "int mu + 1 \<le> \<lfloor>b\<rfloor>" using assms unfolding b_def by (simp add: le_floor_iff)
  then show "int mu + 1 \<le> py_int (real mu + tmp + 1)" using pb unfolding b_def by simp
  have "real_of_int \<lfloor>b\<rfloor> - real_of_int \<lfloor>a\<rfloor> < b - a + 1" by linarith
  then have "real_of_int (\<lfloor>b\<rfloor> - \<lfloor>a\<rfloor>) < (2 * tmp + 1) + 1" by (simp add: a_def b_def)
  then have "real_of_int (\<lfloor>b\<rfloor> - \<lfloor>a\<rfloor>) < real_of_int \<lceil>2 * tmp + 1\<rceil> + 1" by linarith
  then have "\<lfloor>b\<rfloor> - \<lfloor>a\<rfloor> < \<lceil>2 * tmp + 1\<rceil> + 1" by linarith
  then have "\<lfloor>b\<rfloor> - \<lfloor>a\<rfloor> \<le> \<lceil>2 * tmp + 1\<rceil>" by simp
  then show "py_int (real mu + tmp + 1) - py_int (real mu - tmp) \<le> int (nat \<lceil>2 * tmp + 1\<rceil>)"
    using pa(2) pb unfolding n a_def b_def by linarith
  have "- real_of_int \<lfloor>a\<rfloor> < - a + 1" by linarith
  then have "- real_of_int \<lfloor>a\<rfloor> < 2 * tmp + 1 + 1" using assms unfolding a_def by simp
  then have "real_of_int (- \<lfloor>a\<rfloor>) < real_of_int \<lceil>2 * tmp + 1\<rceil> + 1" by linarith
  then have "- \<lfloor>a\<rfloor> < \<lceil>2 * tmp + 1\<rceil> + 1" by linarith
  then show "- py_int (real mu - tmp) \<le> int (nat \<lceil>2 * tmp + 1\<rceil>)"
    using pa(2) unfolding n a_def by linarith
qed

lemma heatmap_entry_succeeds:
  assumes s: "s \<noteq> 0" and t: "0 \<le> tmp" and mx: "mu_x < W" and my: "mu_y < H"
  shows "\<exists>img. heatmap_entry W H s tmp mu_x mu_y = Inr img"
proof -
  define g where "g = gaussian s tmp"
  define n where "n = nat \<lceil>2 * tmp + 1\<rceil>"
  define ulx where "ulx = py_int (real mu_x - tmp)"
  define uly where "uly = py_int (real mu_y - tmp)"
  define brx where "brx = py_int (real mu_x + tmp + 1)"
  define bry where "bry = py_int (real mu_y + tmp + 1)"
  define gx where "gx = (max 0 (- ulx), min brx (int W) - ulx)"
  define gy where "gy = (max 0 (- uly), min bry (int H) - uly)"
  define ix where "ix = (max 0 ulx, min brx (int W))"
  define iy where "iy = (max 0 uly, min bry (int H))"
  have lg: "length g = n" unfolding g_def n_def by (rule gaussian_general(1))
  have fx: "slice_len n gx = slice_len W ix"
    unfolding gx_def ix_def
    using py_int_bounds[OF t, of mu_x, folded ulx_def brx_def n_def] mx
    by (intro window_fits) simp_all
  have fy: "slice_len n gy = slice_len H iy"
    unfolding gy_def iy_def
    using py_int_bounds[OF t, of mu_y, folded uly_def bry_def n_def] my
    by (intro window_fits) simp_all
  have unfold: "heatmap_entry W H s tmp mu_x mu_y =
      assign_slice2 H W (zeros2 H W) iy ix (slice_len (length g) gy, slice_len (length g) gx) (slice2 g gy gx)"
    unfolding heatmap_entry_def Let_def fst_conv snd_conv
      g_def gx_def gy_def ix_def iy_def ulx_def uly_def brx_def bry_def
    using s by (simp only: if_False)
  show ?thesis
    unfolding unfold assign_slice2_def Let_def lg fx fy fst_conv snd_conv by simp
qed

lemma mapE_succeeds:
  assumes "\<And>x. x \<in> set xs \<Longrightarrow> \<exists>y. f x = Inr y"
  shows "\<exists>ys. mapE f xs = Inr ys"
  using assms
proof (induction xs)
  case Nil
  then show ?case by simp
next
  case (Cons x xs)
  obtain y where y: "f x = Inr y" using Cons.prems[of x] by auto
  obtain ys where ys: "mapE f xs = Inr ys" using Cons.IH Cons.prems by auto
  show ?case using y ys by simp
qed

lemma build_heatmaps_succeeds:
  assumes "s \<noteq> 0" "0 \<le> tmp"
  shows "\<exists>hm. build_heatmaps W H s tmp = Inr hm"
  unfolding build_heatmaps_def
  by (intro mapE_succeeds) (simp add: heatmap_entry_succeeds[OF assms])

lemma generator_init_succeeds:
  assumes "s \<noteq> 0" "0 \<le> tmp"
  shows "\<exists>gen. generator_init tmp K H W s = Inr gen"
  using build_heatmaps_succeeds[OF assms, of W H] unfolding generator_init_def by auto

subsection \<open>The forward pass of the generators\<close>

lemma set_chunks_subset: "length xs = m * n \<Longrightarrow> r \<in> set (chunks m n xs) \<Longrightarrow> set r \<subseteq> set xs"
  using concat_chunks[of xs m n] by (metis Sup_upper image_eqI set_concat)

lemma reshape4_D:
  assumes "reshape4 (B, K, H, W) flat = Inr t"
  shows "shape t = (B, K, H, W)" and "wf_tensor4 t" and "length flat = B * K * H * W"
    and "\<And>s c r v. s \<in> set (elems t) \<Longrightarrow> c \<in> set s \<Longrightarrow> r \<in> set c \<Longrightarrow> v \<in> set r \<Longrightarrow> v \<in> set flat"
proof -
  define rows where "rows = chunks (B * K * H) W flat"
  define imgs where "imgs = chunks (B * K) H rows"
  have len: "length flat = B * K * H * W"
    and t: "t = \<lparr>shape = (B, K, H, W), elems = chunks B K imgs\<rparr>"
    using assms unfolding reshape4_def rows_def imgs_def by (auto split: if_splits)
  show "shape t = (B, K, H, W)" by (simp add: t)
  show "length flat = B * K * H * W" by (rule len)
  have lr: "length rows = B * K * H" by (simp add: rows_def)
  have rr: "\<forall>r\<in>set rows. length r = W" unfolding rows_def using len by (intro chunks_rows) simp
  have li: "length imgs = B * K" by (simp add: imgs_def)
  have ri: "\<forall>c\<in>set imgs. length c = H" unfolding imgs_def using lr by (intro chunks_rows) simp
  have rs: "\<forall>s\<in>set (chunks B K imgs). length s = K" using li by (intro chunks_rows) simp
  have sub_s: "set s \<subseteq> set imgs" if "s \<in> set (chunks B K imgs)" for s
    using set_chunks_subset[OF _ that] li by simp
  have sub_c: "set c \<subseteq> set rows" if "c \<in> set imgs" for c
    using set_chunks_subset[of rows "B * K" H c] that lr unfolding imgs_def by simp
  have sub_r: "set r \<subseteq> set flat" if "r \<in> set rows" for r
    using set_chunks_subset[of flat "B * K * H" W r] that len unfolding rows_def by simp
  have "length s = K \<and> (\<forall>c\<in>set s. length c = H \<and> (\<forall>r\<in>set c. length r = W))"
    if s: "s \<in> set (chunks B K imgs)" for s
  proof (intro conjI ballI)
    show "length s = K" using rs s by simp
    fix c assume c: "c \<in> set s"
    then have ci: "c \<in> set imgs" using sub_s[OF s] by blast
    then show "length c = H" using ri by simp
    fix r assume "r \<in> set c"
    then have "r \<in> set rows" using sub_c[OF ci] by blast
    then show "length r = W" using rr by simp
  qed
  then show "wf_tensor4 t"
    unfolding wf_tensor4_def t by simp
  show "v \<in> set flat" if "s \<in> set (elems t)" "c \<in> set s" "r \<in> set c" "v \<in> set r" for s c r v
  proof -
    have "s \<in> set (chunks B K imgs)" using that(1) by (simp add: t)
    then have "c \<in> set imgs" using sub_s that(2) by blast
    then have "r \<in> set rows" using sub_c that(3) by blast
    then show ?thesis using sub_r that(4) by blast
  qed
qed

lemma py_index_D: "py_index n i = Inr a \<Longrightarrow> a < n"
  unfolding py_index_def by (auto split: if_splits)

lemma gather_D:
  assumes "gather self preds = Inr templates" "T \<in> set templates"
  shows "\<exists>a b. a < width self \<and> b < height self \<and> T = heatmaps self ! a ! b"
proof -
  from assms(2) obtain n where n: "n < length templates" "templates ! n = T"
    by (auto simp: in_set_conv_nth)
  note d = mapE_Inr_D[OF assms(1)[unfolded gather_def]]
  obtain px py where p: "preds ! n = (px, py)" by (cases "preds ! n")
  have "bindE (py_index (width self) px) (\<lambda>a.
          bindE (py_index (height self) py) (\<lambda>b. Inr (heatmaps self ! a ! b))) = Inr T"
    using d n p by auto
  then obtain a b where "py_index (width self) px = Inr a" "py_index (height self) py = Inr b"
    "T = heatmaps self ! a ! b"
    by (auto simp: bindE_Inr_iff)
  then show ?thesis using py_index_D by blast
qed

lemma bank_unit:
  assumes "generator_init tmp Kg h w s = Inr self" "a < width self" "b < height self"
  shows "unit_image h w (heatmaps self ! a ! b)"
proof -
  note g = generator_init_D[OF assms(1)]
  have "heatmap_entry w h s tmp a b = Inr (heatmaps self ! a ! b)"
    using build_heatmaps_D(3)[OF g(5)] assms(2,3) g(1,2) by simp
  then show ?thesis by (rule heatmap_entry_unit)
qed

lemma gathered_unit:
  assumes "generator_init tmp Kg h w s = Inr self" "gather self preds = Inr templates"
  shows "\<forall>T\<in>set templates. unit_image h w T"
  using gather_D[OF assms(2)] bank_unit[OF assms(1)] by blast

lemma gathered_flat:
  assumes "\<forall>T\<in>set templates. unit_image h w T"
  shows "length (concat (concat templates)) = length templates * h * w"
    and "\<forall>v\<in>set (concat (concat templates)). 0 \<le> v \<and> v \<le> 1"
proof -
  have l: "\<forall>T\<in>set templates. length T = h" using assms by (simp add: unit_image_def)
  have r: "\<forall>r\<in>set (concat templates). length r = w" using assms by (auto simp: unit_image_def)
  show "length (concat (concat templates)) = length templates * h * w"
    using length_concat_regular[OF r] length_concat_regular[OF l] by simp
  show "\<forall>v\<in>set (concat (concat templates)). 0 \<le> v \<and> v \<le> 1"
    using assms by (auto simp: unit_image_def)
qed

lemma unit_tensor_reshape:
  assumes "reshape4 (B, K, H, W) flat = Inr t" "\<forall>v\<in>set flat. 0 \<le> v \<and> v \<le> 1"
  shows "unit_tensor t"
  unfolding unit_tensor_def using reshape4_D(4)[OF assms(1)] assms(2) by blast

lemma clip01_unit: "0 \<le> clip01 v \<and> clip01 v \<le> 1"
  by (simp add: clip01_def)

lemma unit_tensor_clip: "unit_tensor (tmap clip01 t)"
  unfolding unit_tensor_def tmap_def using clip01_unit by auto

lemma unit_tensor_complement: "unit_tensor (complement t)"
  unfolding unit_tensor_def complement_def tmap_def using clip01_unit by auto

lemma wf_tmap: "wf_tensor4 t \<Longrightarrow> wf_tensor4 (tmap f t)"
  unfolding wf_tensor4_def tmap_def by (auto split: prod.splits)

lemma shape_tmap [simp]: "shape (tmap f t) = shape t"
  by (simp add: tmap_def)

lemma wf_tensor4_nth:
  assumes "wf_tensor4 t" "shape t = (B, K, H, W)"
  shows "length (elems t) = B"
    and "\<And>b. b < B \<Longrightarrow> length (elems t ! b) = K"
    and "\<And>b k. b < B \<Longrightarrow> k < K \<Longrightarrow> length (elems t ! b ! k) = H"
    and "\<And>b k i. b < B \<Longrightarrow> k < K \<Longrightarrow> i < H \<Longrightarrow> length (elems t ! b ! k ! i) = W"
    and "\<And>b k. b < B \<Longrightarrow> k < K \<Longrightarrow> \<forall>r\<in>set (elems t ! b ! k). length r = W"
proof -
  have w: "length (elems t) = B"
    "\<forall>s\<in>set (elems t). length s = K \<and> (\<forall>c\<in>set s. length c = H \<and> (\<forall>r\<in>set c. length r = W))"
    using assms unfolding wf_tensor4_def by simp_all
  show "length (elems t) = B" by (rule w(1))
  show k: "length (elems t ! b) = K" if "b < B" for b using w that by simp
  have ch: "length (elems t ! b ! k) = H \<and> (\<forall>r\<in>set (elems t ! b ! k). length r = W)"
    if "b < B" "k < K" for b k
  proof -
    have "elems t ! b \<in> set (elems t)" using w(1) that(1) by simp
    moreover have "elems t ! b ! k \<in> set (elems t ! b)" using k[OF that(1)] that(2) by simp
    ultimately show ?thesis using w(2) by blast
  qed
  show h: "length (elems t ! b ! k) = H" if "b < B" "k < K" for b k
    using ch[OF that] by simp
  show r: "\<forall>r\<in>set (elems t ! b ! k). length r = W" if "b < B" "k < K" for b k
    using ch[OF that] by simp
  show "length (elems t ! b ! k ! i) = W" if "b < B" "k < K" "i < H" for b k i
    using r[OF that(1,2)] h[OF that(1,2)] that(3) by simp
qed

lemma wf_tensor4_I:
  assumes "shape t = (B, K, H, W)" "length (elems t) = B"
    and "\<And>b. b < B \<Longrightarrow> length (elems t ! b) = K"
    and "\<And>b k. b < B \<Longrightarrow> k < K \<Longrightarrow> length (elems t ! b ! k) = H"
    and "\<And>b k i. b < B \<Longrightarrow> k < K \<Longrightarrow> i < H \<Longrightarrow> length (elems t ! b ! k ! i) = W"
  shows "wf_tensor4 t"
  unfolding wf_tensor4_def using assms by (simp add: all_set_conv_all_nth)

lemma unit_tensor_I:
  assumes "wf_tensor4 t" "shape t = (B, K, H, W)"
    and "\<And>b k i j. b < B \<Longrightarrow> k < K \<Longrightarrow> i < H \<Longrightarrow> j < W \<Longrightarrow>
          0 \<le> elems t ! b ! k ! i ! j \<and> elems t ! b ! k ! i ! j \<le> 1"
  shows "unit_tensor t"
  unfolding unit_tensor_def
  using wf_tensor4_nth[OF assms(1,2)] assms(3) by (simp add: all_set_conv_all_nth)

lemma unit_tensor_nth:
  assumes "unit_tensor t" "wf_tensor4 t" "shape t = (B, K, H, W)" "b < B" "k < K" "i < H" "j < W"
  shows "0 \<le> elems t ! b ! k ! i ! j \<and> elems t ! b ! k ! i ! j \<le> 1"
  using assms(1) wf_tensor4_nth[OF assms(2,3)] assms(4-7)
  unfolding unit_tensor_def by (simp add: all_set_conv_all_nth)

lemma cross_suppression_D:
  assumes wf: "wf_tensor4 gt" and sh: "shape gt = (B, K, H, W)"
    and res: "cross_suppression M gt = Inr gf"
  shows "K = length M" and "B * K \<noteq> 0" and "shape gf = (B, K, H, W)"
    and "length (elems gf) = B"
    and "\<And>b. b < B \<Longrightarrow> length (elems gf ! b) = K"
    and "\<And>b k'. b < B \<Longrightarrow> k' < K \<Longrightarrow> length (elems gf ! b ! k') = H"
    and "\<And>b k' i. b < B \<Longrightarrow> k' < K \<Longrightarrow> i < H \<Longrightarrow> length (elems gf ! b ! k' ! i) = W"
    and "\<And>b k' i j. b < B \<Longrightarrow> k' < K \<Longrightarrow> i < H \<Longrightarrow> j < W \<Longrightarrow>
          elems gf ! b ! k' ! i ! j =
            clip01 (sum_list (map (\<lambda>k. elems gt ! b ! k ! i ! j * M ! k ! k') [0..<K]))"
proof -
  note n = wf_tensor4_nth[OF wf sh]
  define P where "P = H * W"
  define flat where "flat = map (map concat) (elems gt)"
  define tr where "tr = map (\<lambda>s. map (\<lambda>p. map (\<lambda>k. s ! k ! p) [0..<K]) [0..<P]) flat"
  define dot where "dot = map (map (\<lambda>row. map (\<lambda>j. sum_list (map (\<lambda>k. row ! k * M ! k ! j) [0..<K]))
                      [0..<length M])) tr"
  define clipped where "clipped = map (map (map clip01)) dot"
  define bck where "bck = map (\<lambda>s. map (\<lambda>j. map (\<lambda>p. s ! p ! j) [0..<P]) [0..<length M]) clipped"
  have c: "B * K \<noteq> 0" "K = length M"
    and gf: "gf = \<lparr>shape = (B, K, H, W), elems = map (map (chunks H W)) bck\<rparr>"
    using res unfolding cross_suppression_def sh Let_def
      P_def flat_def tr_def dot_def clipped_def bck_def
    by (auto split: if_splits)
  show "K = length M" "B * K \<noteq> 0" by (rule c(2), rule c(1))
  show "shape gf = (B, K, H, W)" by (simp add: gf)
  have lb: "length bck = B" by (simp add: bck_def clipped_def dot_def tr_def flat_def n(1))
  show "length (elems gf) = B" by (simp add: gf lb)
  have bk: "bck ! b ! k' = map (\<lambda>p. clipped ! b ! p ! k') [0..<P]" if "b < B" "k' < K" for b k'
    using that c(2) by (simp add: bck_def clipped_def dot_def tr_def flat_def n(1))
  have lbk: "length (bck ! b) = K" if "b < B" for b
    using that c(2) by (simp add: bck_def clipped_def dot_def tr_def flat_def n(1))
  show "length (elems gf ! b) = K" if "b < B" for b
    using that lb lbk by (simp add: gf)
  have ch: "elems gf ! b ! k' = chunks H W (bck ! b ! k')" if "b < B" "k' < K" for b k'
    using that lb lbk by (simp add: gf)
  show "length (elems gf ! b ! k') = H" if "b < B" "k' < K" for b k'
    using ch[OF that] by simp
  have lP: "length (bck ! b ! k') = H * W" if "b < B" "k' < K" for b k'
    using bk[OF that] by (simp add: P_def)
  show "length (elems gf ! b ! k' ! i) = W" if "b < B" "k' < K" "i < H" for b k' i
    using chunks_rows[OF lP[OF that(1,2)]] that(3) unfolding ch[OF that(1,2)] by simp
  show "elems gf ! b ! k' ! i ! j =
            clip01 (sum_list (map (\<lambda>k. elems gt ! b ! k ! i ! j * M ! k ! k') [0..<K]))"
    if b: "b < B" and k': "k' < K" and i: "i < H" and j: "j < W" for b k' i j
  proof -
    define p where "p = i * W + j"
    have p: "p < P"
    proof -
      have "i * W + j < i * W + W" using j by simp
      also have "\<dots> = Suc i * W" by simp
      also have "\<dots> \<le> H * W" using i by (intro mult_le_mono1) simp
      finally show ?thesis unfolding p_def P_def .
    qed
    have "elems gf ! b ! k' ! i ! j = bck ! b ! k' ! p"
      unfolding ch[OF b k'] p_def using lP[OF b k'] i j by (rule chunks_nth)
    also have "\<dots> = clipped ! b ! p ! k'" using p by (simp add: bk[OF b k'])
    also have "\<dots> = clip01 (dot ! b ! p ! k')"
      using b p k' c(2) by (simp add: clipped_def dot_def tr_def flat_def n(1))
    also have "dot ! b ! p ! k' = sum_list (map (\<lambda>k. (tr ! b ! p) ! k * M ! k ! k') [0..<K])"
      using b p k' c(2) by (simp add: dot_def tr_def flat_def n(1))
    also have "\<dots> = sum_list (map (\<lambda>k. elems gt ! b ! k ! i ! j * M ! k ! k') [0..<K])"
    proof (rule arg_cong[where f = sum_list], rule map_cong[OF refl])
      fix k assume "k \<in> set [0..<K]"
      then have k: "k < K" by simp
      have "tr ! b ! p ! k = concat (elems gt ! b ! k) ! p"
        using b p k by (simp add: tr_def flat_def n(1) n(2))
      also have "\<dots> = elems gt ! b ! k ! i ! j"
        unfolding p_def using n(5)[OF b k] n(3)[OF b k] i j by (intro concat_nth_regular) simp_all
      finally show "tr ! b ! p ! k * M ! k ! k' = elems gt ! b ! k ! i ! j * M ! k ! k'" by simp
    qed
    finally show ?thesis .
  qed
qed

lemma cross_suppression_wf_unit:
  assumes "wf_tensor4 gt" "shape gt = (B, K, H, W)" "cross_suppression M gt = Inr gf"
  shows "wf_tensor4 gf" and "unit_tensor gf"
proof -
  note d = cross_suppression_D[OF assms]
  show w: "wf_tensor4 gf" using d(3-7) by (intro wf_tensor4_I) simp_all
  show "unit_tensor gf"
    using w d(3) by (rule unit_tensor_I) (simp add: d(8) clip01_unit)
qed

lemma PseudoLabelGenerator_forward_D:
  assumes "PseudoLabelGenerator_forward dec self y = Inr (gt, gf)" "shape y = (B, K, H, W)"
  shows "\<exists>preds mv templates. dec y = Inr (preds, mv)
      \<and> gather self (map (\<lambda>(px, py). (py_int px, py_int py)) (concat preds)) = Inr templates
      \<and> reshape4 (B, K, H, W) (concat (concat templates)) = Inr gt
      \<and> cross_suppression (false_matrix self) gt = Inr gf"
  using assms unfolding PseudoLabelGenerator_forward_def
  by (auto simp: bindE_Inr_iff split: prod.splits)

lemma complement_forward_D:
  assumes "complement_forward d side dec self y = Inr (gt, gf)" "shape y = (B, K, H, W)"
  shows "\<exists>preds mv templates. dec y = Inr (preds, mv)
      \<and> gather self (map (\<lambda>(px, py). (py_int (px / d), py_int (py / d))) (concat preds)) = Inr templates
      \<and> reshape4 (B, K, side, side) (concat (concat templates)) = Inr gt
      \<and> gf = complement gt"
  using assms unfolding complement_forward_def
  by (auto simp: bindE_Inr_iff split: prod.splits)

lemma gathered_reshaped:
  assumes init: "generator_init tmp Kg h w s = Inr self"
    and g: "gather self preds = Inr templates"
    and r: "reshape4 (B, K, H, W) (concat (concat templates)) = Inr gt"
  shows "shape gt = (B, K, H, W)" "wf_tensor4 gt" "unit_tensor gt"
proof -
  note u = gathered_unit[OF init g]
  show "shape gt = (B, K, H, W)" "wf_tensor4 gt" using reshape4_D(1,2)[OF r] by simp_all
  show "unit_tensor gt" using r gathered_flat(2)[OF u] by (rule unit_tensor_reshape)
qed

lemma forward_outputs:
  assumes init: "generator_init tmp Kg h w s = Inr self"
    and fwd: "PseudoLabelGenerator_forward dec self y = Inr (gt, gf)"
    and sh: "shape y = (B, K, H, W)"
  shows "shape gt = (B, K, H, W)" "wf_tensor4 gt" "unit_tensor gt"
    "shape gf = (B, K, H, W)" "wf_tensor4 gf" "unit_tensor gf"
    "cross_suppression (false_matrix self) gt = Inr gf"
proof -
  from PseudoLabelGenerator_forward_D[OF fwd sh] obtain preds mv templates where
    g: "gather self (map (\<lambda>(px, py). (py_int px, py_int py)) (concat preds)) = Inr templates"
    and r: "reshape4 (B, K, H, W) (concat (concat templates)) = Inr gt"
    and c: "cross_suppression (false_matrix self) gt = Inr gf"
    by blast
  note a = gathered_reshaped[OF init g r]
  show "shape gt = (B, K, H, W)" "wf_tensor4 gt" "unit_tensor gt" by (rule a)+
  show "shape gf = (B, K, H, W)" by (rule cross_suppression_D(3)[OF a(2,1) c])
  show "wf_tensor4 gf" "unit_tensor gf" by (rule cross_suppression_wf_unit[OF a(2,1) c])+
  show "cross_suppression (false_matrix self) gt = Inr gf" by (rule c)
qed

lemma complement_forward_outputs:
  assumes init: "generator_init tmp Kg h w s = Inr self"
    and fwd: "complement_forward d side dec self y = Inr (gt, gf)"
    and sh: "shape y = (B, K, H, W)"
  shows "shape gt = (B, K, side, side)" "wf_tensor4 gt" "unit_tensor gt"
    "shape gf = (B, K, side, side)" "wf_tensor4 gf" "unit_tensor gf"
proof -
  from complement_forward_D[OF fwd sh] obtain preds mv templates where
    g: "gather self (map (\<lambda>(px, py). (py_int (px / d), py_int (py / d))) (concat preds)) = Inr templates"
    and r: "reshape4 (B, K, side, side) (concat (concat templates)) = Inr gt"
    and c: "gf = complement gt"
    by blast
  note a = gathered_reshaped[OF init g r]
  show "shape gt = (B, K, side, side)" "wf_tensor4 gt" "unit_tensor gt" by (rule a)+
  show "shape gf = (B, K, side, side)" unfolding c complement_def using a(1) by simp
  show "wf_tensor4 gf" unfolding c complement_def using a(2) by (rule wf_tmap)
  show "unit_tensor gf" unfolding c by (rule unit_tensor_complement)
qed

lemma false_matrix_nth:
  "k < K \<Longrightarrow> k' < K \<Longrightarrow> make_false_matrix K ! k ! k' = (if k = k' then 0 else 1)"
  by (simp add: make_false_matrix_def)

lemma sum_list_ge_member:
  fixes f :: "nat \<Rightarrow> real"
  assumes "k < K" "\<And>i. i < K \<Longrightarrow> 0 \<le> f i"
  shows "f k \<le> sum_list (map f [0..<K])"
proof -
  have "sum_list (map f [0..<K]) = sum f {0..<K}"
    by (simp add: interv_sum_list_conv_sum_set_nat)
  moreover have "f k \<le> sum f {0..<K}"
    using assms by (intro member_le_sum) simp_all
  ultimately show ?thesis by simp
qed

subsection \<open>A run of \<open>PseudoLabelGenerator\<close> on a concrete batch\<close>

text \<open>
  \<open>PseudoLabelGenerator(num_keypoints=2, height=1, width=2, sigma=1)\<close> and a batch of
  one sample with two keypoint channels on a grid of one row and two columns.
\<close>

lemma example_generator:
  "PseudoLabelGenerator_init 2 1 2 1 =
     Inr \<lparr>height = 1, width = 2, sigma = 1,
          heatmaps = [[[[1, exp (- (1 / 2))]]], [[[exp (- (1 / 2)), 1]]]],
          false_matrix = [[0, 1], [1, 0]]\<rparr>"
proof -
  have "PseudoLabelGenerator_init 2 1 2 1 =
     Inr \<lparr>height = 1, width = 2, sigma = 1,
        heatmaps = map (\<lambda>x. map (\<lambda>y. map (\<lambda>i. map (\<lambda>j. bump 1 (3 * 1) x y i j) [0..<2]) [0..<1]) [0..<1]) [0..<2],
        false_matrix = make_false_matrix 2\<rparr>"
    by (rule PseudoLabelGenerator_init_bank) simp
  then show ?thesis
    by (simp add: bump_def make_false_matrix_def upt_rec)
qed

lemma example_decode:
  "get_max_preds \<lparr>shape = (1, 2, 1, 2), elems = [[[[3, 9]], [[8, 1]]]]\<rparr> =
     Inr ([[(1, 0), (0, 0)]], [[9, 8]])"
  by (simp add: get_max_preds_def Let_def)

lemma example_gather:
  "gather \<lparr>height = 1, width = 2, sigma = 1,
      heatmaps = [[[[1, exp (- (1 / 2))]]], [[[exp (- (1 / 2)), 1]]]],
      false_matrix = [[0, 1], [1, 0]]\<rparr>
     (map (\<lambda>(px, py). (py_int px, py_int py)) (concat [[(1, 0), (0, 0)]])) =
   Inr [[[exp (- (1 / 2)), 1]], [[1, exp (- (1 / 2))]]]"
  by (simp add: gather_def py_index_def py_int_def)

lemma example_reshape:
  "reshape4 (1, 2, 1, 2) (concat (concat [[[exp (- (1 / 2)), 1]], [[1, exp (- (1 / 2)) :: real]]])) =
   Inr \<lparr>shape = (1, 2, 1, 2), elems = [[[[exp (- (1 / 2)), 1]], [[1, exp (- (1 / 2))]]]]\<rparr>"
  by (simp add: reshape4_def numeral_2_eq_2)

lemma example_cross:
  "cross_suppression [[0, 1], [1, 0]]
     \<lparr>shape = (1, 2, 1, 2), elems = [[[[exp (- (1 / 2)), 1]], [[1, exp (- (1 / 2))]]]]\<rparr> =
   Inr \<lparr>shape = (1, 2, 1, 2), elems = [[[[1, exp (- (1 / 2))]], [[exp (- (1 / 2)), 1]]]]\<rparr>"
  by (simp add: cross_suppression_def clip01_def Let_def numeral_2_eq_2)

lemma example_forward:
  "PseudoLabelGenerator_forward get_max_preds
     \<lparr>height = 1, width = 2, sigma = 1,
      heatmaps = [[[[1, exp (- (1 / 2))]]], [[[exp (- (1 / 2)), 1]]]],
      false_matrix = [[0, 1], [1, 0]]\<rparr>
     \<lparr>shape = (1, 2, 1, 2), elems = [[[[3, 9]], [[8, 1]]]]\<rparr> =
   Inr (\<lparr>shape = (1, 2, 1, 2), elems = [[[[exp (- (1 / 2)), 1]], [[1, exp (- (1 / 2))]]]]\<rparr>,
        \<lparr>shape = (1, 2, 1, 2), elems = [[[[1, exp (- (1 / 2))]], [[exp (- (1 / 2)), 1]]]]\<rparr>)"
  unfolding PseudoLabelGenerator_forward_def
  by (simp only: tensor4.select_convs generator.select_convs prod.case bindE_Inr
      example_decode example_gather example_reshape example_cross)

text \<open>
  \<open>PseudoLabelGenerator(num_keypoints=1, height=1, width=2, sigma=1)\<close> and a batch of one
  sample with one keypoint channel: the matrix \<open>1 - eye(1)\<close> is \<open>[[0]]\<close>, and the ground
  false is zero everywhere.
\<close>

lemma single_generator:
  "PseudoLabelGenerator_init 1 1 2 1 =
     Inr \<lparr>height = 1, width = 2, sigma = 1,
          heatmaps = [[[[1, exp (- (1 / 2))]]], [[[exp (- (1 / 2)), 1]]]],
          false_matrix = [[0]]\<rparr>"
proof -
  have "PseudoLabelGenerator_init 1 1 2 1 =
     Inr \<lparr>height = 1, width = 2, sigma = 1,
        heatmaps = map (\<lambda>x. map (\<lambda>y. map (\<lambda>i. map (\<lambda>j. bump 1 (3 * 1) x y i j) [0..<2]) [0..<1]) [0..<1]) [0..<2],
        false_matrix = make_false_matrix 1\<rparr>"
    by (rule PseudoLabelGenerator_init_bank) simp
  then show ?thesis
    by (simp add: bump_def make_false_matrix_def upt_rec)
qed

lemma single_decode:
  "get_max_preds \<lparr>shape = (1, 1, 1, 2), elems = [[[[3, 9]]]]\<rparr> = Inr ([[(1, 0)]], [[9]])"
  by (simp add: get_max_preds_def Let_def)

lemma single_gather:
  "gather \<lparr>height = 1, width = 2, sigma = 1,
      heatmaps = [[[[1, exp (- (1 / 2))]]], [[[exp (- (1 / 2)), 1]]]],
      false_matrix = [[0]]\<rparr>
     (map (\<lambda>(px, py). (py_int px, py_int py)) (concat [[(1, 0)]])) =
   Inr [[[exp (- (1 / 2)), 1]]]"
  by (simp add: gather_def py_index_def py_int_def)

lemma single_reshape:
  "reshape4 (1, 1, 1, 2) (concat (concat [[[exp (- (1 / 2)), 1 :: real]]])) =
   Inr \<lparr>shape = (1, 1, 1, 2), elems = [[[[exp (- (1 / 2)), 1]]]]\<rparr>"
  by (simp add: reshape4_def numeral_2_eq_2)

lemma single_cross:
  "cross_suppression [[0]] \<lparr>shape = (1, 1, 1, 2), elems = [[[[exp (- (1 / 2)), 1]]]]\<rparr> =
   Inr \<lparr>shape = (1, 1, 1, 2), elems = [[[[0, 0]]]]\<rparr>"
  by (simp add: cross_suppression_def clip01_def Let_def numeral_2_eq_2)

lemma single_forward:
  "PseudoLabelGenerator_forward get_max_preds
     \<lparr>height = 1, width = 2, sigma = 1,
      heatmaps = [[[[1, exp (- (1 / 2))]]], [[[exp (- (1 / 2)), 1]]]],
      false_matrix = [[0]]\<rparr>
     \<lparr>shape = (1, 1, 1, 2), elems = [[[[3, 9]]]]\<rparr> =
   Inr (\<lparr>shape = (1, 1, 1, 2), elems = [[[[exp (- (1 / 2)), 1]]]]\<rparr>,
        \<lparr>shape = (1, 1, 1, 2), elems = [[[[0, 0]]]]\<rparr>)"
  unfolding PseudoLabelGenerator_forward_def
  by (simp only: tensor4.select_convs generator.select_convs prod.case bindE_Inr
      single_decode single_gather single_reshape single_cross)


subsection \<open>Claim C1: peak and support of a template\<close>

text \<open>
  For \<open>PseudoLabelGenerator\<close>, whose window has the integral half-width \<open>3 * sigma\<close>,
  the template of the peak \<open>(x, y)\<close> is 1 at the pixel \<open>(y, x)\<close> and 0 at every pixel
  whose offset from the peak exceeds \<open>3 * sigma\<close> along either axis.
\<close>

lemma base_bank_peak_and_support:
  assumes "PseudoLabelGenerator_init K H W s = Inr gen" "0 < s" "x < W" "y < H" "iy < H" "ix < W"
  shows "heatmaps gen ! x ! y ! y ! x = 1"
    and "3 * s < \<bar>int ix - int x\<bar> \<or> 3 * s < \<bar>int iy - int y\<bar> \<Longrightarrow> heatmaps gen ! x ! y ! iy ! ix = 0"
proof -
  show "heatmaps gen ! x ! y ! y ! x = 1"
    using bank_nth[OF assms(1-4) assms(4) assms(3)] assms(2) by (simp add: bump_center)
  show "heatmaps gen ! x ! y ! iy ! ix = 0" if "3 * s < \<bar>int ix - int x\<bar> \<or> 3 * s < \<bar>int iy - int y\<bar>"
  proof -
    have "\<not> in_window (3 * s) x y ix iy" using that unfolding in_window_def by linarith
    then show ?thesis using bank_nth[OF assms] by (simp add: bump_out)
  qed
qed

lemmas entry_eval = heatmap_entry_def gaussian_def assign_slice2_def slice2_def slice_def
  slice_len_def slice_index_def zeros2_def py_int_def Let_def

lemma gen01_entry_0_0:
  "heatmap_entry 3 3 1 (real_of_int 1 * 1.5) 0 0 =
     Inr [[exp (- 1), exp (- (1 / 2)), 0], [exp (- (1 / 2)), 1, 0], [0, 0, 0]]"
  by (simp add: entry_eval upt_rec numeral_eq_Suc)

lemma gen01_entry_2_2:
  "heatmap_entry 3 3 1 (real_of_int 1 * 1.5) 2 2 =
     Inr [[exp (- 4), exp (- (5 / 2)), exp (- 2)], [exp (- (5 / 2)), exp (- 1), exp (- (1 / 2))],
          [exp (- 2), exp (- (1 / 2)), 1]]"
  by (simp add: entry_eval upt_rec numeral_eq_Suc)

text \<open>
  Claim C1, evaluated on \<open>PseudoLabelGenerator01(num_keypoints=1, height=3, width=3, sigma=1)\<close>.
  Its half-width \<open>tmp_size = 1.5\<close> is not integral and \<open>int()\<close> truncates toward zero:
  for the peak \<open>(0, 0)\<close> the patch of size 4, whose centre has index 2, is pasted from
  index 1 on, so the template holds \<open>exp(-1)\<close> at the pixel \<open>(0, 0)\<close> and its 1 at the
  pixel \<open>(1, 1)\<close>. For the peak \<open>(2, 2)\<close> the window reaches the pixel \<open>(2, 0)\<close>, whose
  offset 2 along the x axis exceeds the half-width, and the template holds \<open>exp(-2)\<close>
  there.
\<close>

theorem C1_gen01_odd_sigma:
  "\<exists>gen. PseudoLabelGenerator01_init 1 3 3 1 = Inr gen
     \<and> heatmaps gen ! 0 ! 0 =
         [[exp (- 1), exp (- (1 / 2)), 0], [exp (- (1 / 2)), 1, 0], [0, 0, 0]]
     \<and> heatmaps gen ! 0 ! 0 ! 0 ! 0 \<noteq> 1
     \<and> heatmaps gen ! 2 ! 2 =
         [[exp (- 4), exp (- (5 / 2)), exp (- 2)], [exp (- (5 / 2)), exp (- 1), exp (- (1 / 2))],
          [exp (- 2), exp (- (1 / 2)), 1]]
     \<and> heatmaps gen ! 2 ! 2 ! 2 ! 0 \<noteq> 0"
proof -
  obtain gen where init: "PseudoLabelGenerator01_init 1 3 3 1 = Inr gen"
    using generator_init_succeeds[of 1 "real_of_int 1 * 1.5" 1 3 3]
    unfolding PseudoLabelGenerator01_init_def by auto
  note b = build_heatmaps_D(3)[OF generator_init_D(5)[OF init[unfolded PseudoLabelGenerator01_init_def]]]
  have e0: "heatmaps gen ! 0 ! 0 = [[exp (- 1), exp (- (1 / 2)), 0], [exp (- (1 / 2)), 1, 0], [0, 0, 0]]"
    using b[of 0 0] gen01_entry_0_0 by simp
  have e2: "heatmaps gen ! 2 ! 2 = [[exp (- 4), exp (- (5 / 2)), exp (- 2)], [exp (- (5 / 2)), exp (- 1), exp (- (1 / 2))],
          [exp (- 2), exp (- (1 / 2)), 1]]"
    using b[of 2 2] gen01_entry_2_2 by simp
  have "heatmaps gen ! 0 ! 0 ! 0 ! 0 \<noteq> 1" unfolding e0 by simp
  moreover have "heatmaps gen ! 2 ! 2 ! 2 ! 0 \<noteq> 0" unfolding e2 by simp
  ultimately show ?thesis using init e0 e2 by blast
qed

subsection \<open>Claim C2: shape and range of the generators' outputs\<close>

text \<open>
  With \<open>sigma = 0\<close> every constructor stores \<open>nan\<close>: the exponent of the patch is
  \<open>0/0\<close>, and the patch is pasted at every peak of a grid that has a pixel.
\<close>

lemma mapE_first_fails: "f x = Inl e \<Longrightarrow> mapE f (x # xs) = Inl e"
  by simp

lemma generator_init_sigma_zero:
  assumes "0 < h" "0 < w"
  shows "generator_init tmp Kg h w 0 = Inl NotFinite"
proof -
  have h: "[0..<h] = 0 # [1..<h]" and w: "[0..<w] = 0 # [1..<w]"
    using assms by (simp_all add: upt_conv_Cons)
  have e: "heatmap_entry w h 0 tmp 0 0 = Inl NotFinite"
    by (simp add: heatmap_entry_def Let_def)
  have "mapE (\<lambda>mu_y. heatmap_entry w h 0 tmp 0 mu_y) [0..<h] = Inl NotFinite"
    unfolding h using e by (rule mapE_first_fails)
  then have "build_heatmaps w h 0 tmp = Inl NotFinite"
    unfolding build_heatmaps_def w by (rule mapE_first_fails)
  then show ?thesis by (simp add: generator_init_def)
qed

text \<open>
  Claim C2, as the code has it. For a generator built by any of the constructors with
  \<open>sigma \<noteq> 0\<close> and every decoder: when \<open>PseudoLabelGenerator.forward\<close> returns, the ground truth and
  the ground false have the shape \<open>(B, K, H, W)\<close> of the input; when
  \<open>PseudoLabelGenerator01.forward\<close> returns, both have the shape \<open>(B, K, 16, 16)\<close>, and
  when \<open>PseudoLabelGenerator03.forward\<close> returns, both have the shape
  \<open>(B, K, 32, 32)\<close>, whatever \<open>H\<close> and \<open>W\<close> are. In all three cases the entries of
  both tensors fill their shape and lie in \<open>[0, 1]\<close>.
\<close>

theorem C2_generator_outputs:
  assumes init: "generator_init tmp Kg h w s = Inr self" and sigma: "s \<noteq> 0"
    and sh: "shape y = (B, K, H, W)"
  shows "(PseudoLabelGenerator_forward dec self y = Inr (gt, gf) \<longrightarrow>
            shape gt = shape y \<and> shape gf = shape y
            \<and> wf_tensor4 gt \<and> wf_tensor4 gf \<and> unit_tensor gt \<and> unit_tensor gf)
       \<and> (PseudoLabelGenerator01_forward dec self y = Inr (gt, gf) \<longrightarrow>
            shape gt = (B, K, 16, 16) \<and> shape gf = (B, K, 16, 16)
            \<and> wf_tensor4 gt \<and> wf_tensor4 gf \<and> unit_tensor gt \<and> unit_tensor gf)
       \<and> (PseudoLabelGenerator03_forward dec self y = Inr (gt, gf) \<longrightarrow>
            shape gt = (B, K, 32, 32) \<and> shape gf = (B, K, 32, 32)
            \<and> wf_tensor4 gt \<and> wf_tensor4 gf \<and> unit_tensor gt \<and> unit_tensor gf)"
proof (intro conjI impI)
  assume f: "PseudoLabelGenerator_forward dec self y = Inr (gt, gf)"
  note o = forward_outputs[OF init f sh]
  show "shape gt = shape y" "shape gf = shape y" unfolding sh by (rule o(1), rule o(4))
  show "wf_tensor4 gt" "wf_tensor4 gf" "unit_tensor gt" "unit_tensor gf"
    by (rule o(2), rule o(5), rule o(3), rule o(6))
next
  assume f: "PseudoLabelGenerator01_forward dec self y = Inr (gt, gf)"
  note o = complement_forward_outputs[OF init f[unfolded PseudoLabelGenerator01_forward_def] sh]
  show "shape gt = (B, K, 16, 16)" "shape gf = (B, K, 16, 16)" by (rule o(1), rule o(4))
  show "wf_tensor4 gt" "wf_tensor4 gf" "unit_tensor gt" "unit_tensor gf"
    by (rule o(2), rule o(5), rule o(3), rule o(6))
next
  assume f: "PseudoLabelGenerator03_forward dec self y = Inr (gt, gf)"
  note o = complement_forward_outputs[OF init f[unfolded PseudoLabelGenerator03_forward_def] sh]
  show "shape gt = (B, K, 32, 32)" "shape gf = (B, K, 32, 32)" by (rule o(1), rule o(4))
  show "wf_tensor4 gt" "wf_tensor4 gf" "unit_tensor gt" "unit_tensor gf"
    by (rule o(2), rule o(5), rule o(3), rule o(6))
qed

theorem C2_generator_outputs_witness:
  "\<exists>self gt gf. generator_init (real_of_int 1 * 3) 2 1 2 1 = Inr self
     \<and> PseudoLabelGenerator_forward get_max_preds self
          \<lparr>shape = (1, 2, 1, 2), elems = [[[[3, 9]], [[8, 1]]]]\<rparr> = Inr (gt, gf)
     \<and> shape gt = (1, 2, 1, 2) \<and> shape gf = (1, 2, 1, 2)
     \<and> wf_tensor4 gt \<and> wf_tensor4 gf \<and> unit_tensor gt \<and> unit_tensor gf"
proof -
  let ?y = "\<lparr>shape = (1, 2, 1, 2), elems = [[[[3, 9]], [[8, 1 :: real]]]]\<rparr>"
  have sh: "shape ?y = (1, 2, 1, 2)" by simp
  note g = example_generator[unfolded PseudoLabelGenerator_init_def]
  have sigma: "(1::int) \<noteq> 0" by simp
  note c = C2_generator_outputs[OF g sigma sh, of get_max_preds, THEN conjunct1, rule_format, OF example_forward]
  show ?thesis using g example_forward c by simp
qed

lemma concat_replicate_replicate: "concat (replicate n (replicate m x)) = replicate (n * m) x"
  by (induction n) (simp_all add: replicate_add)

lemma argmax_first_replicate: "argmax_first (replicate n (c::real)) = 0"
  by (cases n) simp_all

lemma decode_zero_map:
  assumes "H * W \<noteq> 0"
  shows "get_max_preds \<lparr>shape = (1, 1, H, W), elems = [[replicate H (replicate W 0)]]\<rparr> =
     Inr ([[(0, 0)]], [[0]])"
proof -
  have "0 < H * W" using assms by simp
  then have "replicate (H * W) (0::real) ! 0 = 0" by (intro nth_replicate)
  then show ?thesis
    using assms
    by (simp add: get_max_preds_def Let_def concat_replicate_replicate argmax_first_replicate
        del: replicate_eq_replicate nth_replicate)
qed

text \<open>
  Claim C2 as stated fails twice. \<open>PseudoLabelGenerator01\<close>, built for a grid of
  \<open>16 x 16\<close> with \<open>sigma = 2\<close>, accepts a batch of shape \<open>(1, 1, 64, 64)\<close> and returns
  two tensors of shape \<open>(1, 1, 16, 16)\<close>. And \<open>PseudoLabelGenerator\<close> with \<open>sigma = 0\<close>
  holds \<open>nan\<close> in its bank, which \<open>forward\<close> hands on: entries outside \<open>[0, 1]\<close>.
\<close>

theorem C2_shape_counterexample:
  "bindE (PseudoLabelGenerator01_init 1 16 16 2) (\<lambda>self.
     bindE (PseudoLabelGenerator01_forward get_max_preds self
              \<lparr>shape = (1, 1, 64, 64), elems = [[replicate 64 (replicate 64 0)]]\<rparr>)
       (\<lambda>(ground_truth, ground_false). Inr (shape ground_truth, shape ground_false))) =
   Inr ((1, 1, 16, 16), (1, 1, 16, 16))
   \<and> PseudoLabelGenerator_init 1 1 1 0 = Inl NotFinite"
proof -
  let ?y = "\<lparr>shape = (1, 1, 64, 64), elems = [[replicate 64 (replicate 64 (0::real))]]\<rparr>"
  obtain self where init: "PseudoLabelGenerator01_init 1 16 16 2 = Inr self"
    using generator_init_succeeds[of 2 "real_of_int 2 * 1.5" 1 16 16]
    unfolding PseudoLabelGenerator01_init_def by auto
  note init' = init[unfolded PseudoLabelGenerator01_init_def]
  note g = generator_init_D[OF init']
  define T where "T = heatmaps self ! 0 ! 0"
  have u: "unit_image 16 16 T" unfolding T_def using init' by (rule bank_unit) (simp_all add: g)
  have dec: "get_max_preds ?y = Inr ([[(0, 0)]], [[0]])" by (rule decode_zero_map) simp
  have ga: "gather self (map (\<lambda>(px, py). (py_int (px / 4), py_int (py / 4))) (concat [[(0, 0)]])) = Inr [T]"
    by (simp add: gather_def py_index_def py_int_def g T_def)
  have len: "length (concat (concat [T])) = 1 * 1 * 16 * 16"
    using gathered_flat(1)[of "[T]" 16 16] u by simp
  obtain gt where r: "reshape4 (1, 1, 16, 16) (concat (concat [T])) = Inr gt"
    and sg: "shape gt = (1, 1, 16, 16)"
    using len unfolding reshape4_def by simp
  have f: "PseudoLabelGenerator01_forward get_max_preds self ?y = Inr (gt, complement gt)"
    unfolding PseudoLabelGenerator01_forward_def complement_forward_def
    by (simp only: tensor4.select_convs prod.case bindE_Inr dec ga r)
  have sc: "shape (complement gt) = (1, 1, 16, 16)" by (simp add: sg complement_def)
  have run: "bindE (PseudoLabelGenerator01_init 1 16 16 2) (\<lambda>self.
     bindE (PseudoLabelGenerator01_forward get_max_preds self ?y)
       (\<lambda>(ground_truth, ground_false). Inr (shape ground_truth, shape ground_false))) =
     Inr ((1, 1, 16, 16), (1, 1, 16, 16))"
    by (simp only: init bindE_Inr f prod.case sg sc)
  have zero: "PseudoLabelGenerator_init 1 1 1 0 = Inl NotFinite"
    unfolding PseudoLabelGenerator_init_def by (rule generator_init_sigma_zero) simp_all
  show ?thesis using run zero by (rule conjI)
qed

subsection \<open>Claim C4: decoding a template gives its peak back\<close>

lemma bank_entry:
  assumes "PseudoLabelGenerator_init K H W s = Inr gen" "0 < s" "x < W" "y < H"
  shows "heatmaps gen ! x ! y = map (\<lambda>i. map (\<lambda>j. bump s (3 * s) x y i j) [0..<W]) [0..<H]"
  using assms(1) unfolding PseudoLabelGenerator_init_bank[OF assms(2)]
  using assms(3,4) by auto

lemma div_mod_unique_index:
  fixes W :: nat
  assumes "x < W" "q mod W = x" "q div W = y"
  shows "q = y * W + x"
  using assms by (metis div_mult_mod_eq)

text \<open>
  Claim C4. For the bank of \<open>PseudoLabelGenerator\<close> with a positive \<open>sigma\<close> and every
  peak \<open>(x, y)\<close> on the grid, the arg-max decoder (maximum value, first occurrence in
  row-major order) applied to the template \<open>heatmaps[x][y]\<close> returns the location
  \<open>(x, y)\<close>, with confidence 1.
\<close>

theorem C4_decode_roundtrip:
  assumes init: "PseudoLabelGenerator_init K H W s = Inr gen" and s: "0 < s"
    and x: "x < W" and y: "y < H"
  shows "get_max_preds \<lparr>shape = (1, 1, H, W), elems = [[heatmaps gen ! x ! y]]\<rparr> =
           Inr ([[(real x, real y)]], [[1]])"
proof -
  define img where "img = heatmaps gen ! x ! y"
  define flat where "flat = concat img"
  define p where "p = y * W + x"
  have img: "img = map (\<lambda>i. map (\<lambda>j. bump s (3 * s) x y i j) [0..<W]) [0..<H]"
    unfolding img_def using init s x y by (rule bank_entry)
  have rows: "\<forall>r\<in>set img. length r = W" and li: "length img = H" unfolding img by auto
  have lf: "length flat = H * W" unfolding flat_def using length_concat_regular[OF rows] li by simp
  have cell: "flat ! (i * W + j) = bump s (3 * s) x y i j" if "i < H" "j < W" for i j
  proof -
    have "flat ! (i * W + j) = img ! i ! j"
      unfolding flat_def using rows that li by (intro concat_nth_regular) simp_all
    then show ?thesis using that by (simp add: img)
  qed
  have W: "0 < W" using x by simp
  have pl: "p < length flat"
  proof -
    have "y * W + x < y * W + W" using x by simp
    also have "\<dots> = Suc y * W" by simp
    also have "\<dots> \<le> H * W" using y by (intro mult_le_mono1) simp
    finally show ?thesis unfolding p_def lf .
  qed
  have fp: "flat ! p = 1" unfolding p_def cell[OF y x] using s by (intro bump_center) simp
  have less: "flat ! q < flat ! p" if q: "q < length flat" and ne: "q \<noteq> p" for q
  proof -
    have qi: "q div W < H" using q lf W by (simp add: less_mult_imp_div_less)
    have qj: "q mod W < W" using W by simp
    have "q = (q div W) * W + q mod W" by simp
    then have fq: "flat ! q = bump s (3 * s) x y (q div W) (q mod W)"
      using cell[OF qi qj] by simp
    have "q mod W \<noteq> x \<or> q div W \<noteq> y"
      using ne div_mod_unique_index[OF x, of q y] unfolding p_def by blast
    then have "bump s (3 * s) x y (q div W) (q mod W) < 1"
      using s by (intro bump_lt_one) simp_all
    then show ?thesis using fq fp by simp
  qed
  have am: "argmax_first flat = p" using pl less by (intro argmax_first_unique) simp_all
  have pm: "p mod W = x" "p div W = y" unfolding p_def using x by simp_all
  have hw: "H * W \<noteq> 0" using x y by simp
  show ?thesis
    unfolding get_max_preds_def
    using hw am fp pm by (simp add: Let_def flat_def[symmetric] img_def[symmetric])
qed

theorem C4_decode_roundtrip_witness:
  "\<exists>gen. PseudoLabelGenerator_init 1 3 5 1 = Inr gen
     \<and> get_max_preds \<lparr>shape = (1, 1, 3, 5), elems = [[heatmaps gen ! 4 ! 2]]\<rparr> = Inr ([[(4, 2)]], [[1]])"
proof -
  obtain gen where init: "PseudoLabelGenerator_init 1 3 5 1 = Inr gen"
    using PseudoLabelGenerator_init_bank[of 1 1 3 5] by simp
  show ?thesis using C4_decode_roundtrip[OF init, of 4 2] init by simp
qed

subsection \<open>Claim C5: the cross-suppression ground false\<close>

text \<open>
  Claim C5. When \<open>PseudoLabelGenerator.forward\<close> returns \<open>(ground_truth, ground_false)\<close>
  and the ground truth of keypoint \<open>k\<close> is 1 at a pixel, the ground false of every
  other keypoint \<open>k'\<close> is 1 at that pixel. The ground false is the value of
  \<open>cross_suppression\<close> at the ground truth and the suppression matrix of the generator,
  which has 0 on its diagonal and 1 elsewhere: it depends on nothing else, so computing
  it again from the same ground truth gives the same tensor.
\<close>

theorem C5_cross_suppression:
  assumes init: "PseudoLabelGenerator_init Kg h w s = Inr self"
    and fwd: "PseudoLabelGenerator_forward dec self y = Inr (gt, gf)"
    and sh: "shape y = (B, K, H, W)"
    and idx: "b < B" "k < K" "k' < K" "k' \<noteq> k" "i < H" "j < W"
    and one: "elems gt ! b ! k ! i ! j = 1"
  shows "elems gf ! b ! k' ! i ! j = 1
       \<and> cross_suppression (false_matrix self) gt = Inr gf
       \<and> false_matrix self ! k ! k = 0 \<and> false_matrix self ! k ! k' = 1"
proof -
  note init' = init[unfolded PseudoLabelGenerator_init_def]
  note o = forward_outputs[OF init' fwd sh]
  note d = cross_suppression_D[OF o(2,1,7)]
  have M: "false_matrix self = make_false_matrix Kg" by (rule generator_init_D(4)[OF init'])
  have KK: "K = Kg" using d(1) by (simp add: M make_false_matrix_def)
  define f where "f = (\<lambda>m. elems gt ! b ! m ! i ! j * false_matrix self ! m ! k')"
  have nonneg: "0 \<le> f m" if "m < K" for m
    using unit_tensor_nth[OF o(3,2,1) idx(1) that idx(5,6)] that idx(3)
    unfolding f_def M KK[symmetric] by (simp add: false_matrix_nth)
  have fk: "f k = 1" unfolding f_def M KK[symmetric] using one idx by (simp add: false_matrix_nth)
  have "1 \<le> sum_list (map f [0..<K])"
    using sum_list_ge_member[of k K f, OF idx(2) nonneg] fk by simp
  then have "clip01 (sum_list (map f [0..<K])) = 1" by (simp add: clip01_def)
  then have "elems gf ! b ! k' ! i ! j = 1"
    unfolding d(8)[OF idx(1,3,5,6)] f_def .
  moreover have "false_matrix self ! k ! k = 0" "false_matrix self ! k ! k' = 1"
    unfolding M KK[symmetric] using idx by (simp_all add: false_matrix_nth)
  ultimately show ?thesis using o(7) by simp
qed

theorem C5_cross_suppression_witness:
  "\<exists>self gt gf. PseudoLabelGenerator_init 2 1 2 1 = Inr self
     \<and> PseudoLabelGenerator_forward get_max_preds self
          \<lparr>shape = (1, 2, 1, 2), elems = [[[[3, 9]], [[8, 1]]]]\<rparr> = Inr (gt, gf)
     \<and> elems gt ! 0 ! 0 ! 0 ! 1 = 1 \<and> elems gf ! 0 ! 1 ! 0 ! 1 = 1
     \<and> cross_suppression (false_matrix self) gt = Inr gf
     \<and> false_matrix self ! 0 ! 0 = 0 \<and> false_matrix self ! 0 ! 1 = 1"
proof -
  let ?y = "\<lparr>shape = (1, 2, 1, 2), elems = [[[[3, 9]], [[8, 1 :: real]]]]\<rparr>"
  have sh: "shape ?y = (1, 2, 1, 2)" by simp
  have one: "elems \<lparr>shape = (1, 2, 1, 2), elems = [[[[exp (- (1 / 2)), 1]], [[1, exp (- (1 / 2)) :: real]]]]\<rparr>
      ! 0 ! 0 ! 0 ! 1 = 1" by simp
  note c = C5_cross_suppression[OF example_generator example_forward sh, of 0 0 1 0 1, OF _ _ _ _ _ _ one]
  show ?thesis
    using example_generator example_forward one c by simp
qed

subsection \<open>Claim C6: the complement ground false\<close>

text \<open>
  Claim C6. The ground false of \<open>PseudoLabelGenerator01.forward\<close> and of
  \<open>RegressionDisparityx1.forward\<close> is the complement of the ground truth: it has the
  shape of the ground truth, each of its entries is \<open>clip(1 - 10 * v, 0, 1)\<close> for the
  entry \<open>v\<close> of the ground truth at the same place, and it is 0 wherever the ground
  truth is at least 0.1, so \<open>ground_truth \<ge> 0.1\<close> and \<open>ground_false > 0\<close> never hold
  together.
\<close>

theorem C6_complement_ground_false:
  "(PseudoLabelGenerator01_forward get_max_preds self y = Inr (ground_truth, ground_false)
      \<longrightarrow> ground_false = complement ground_truth)
   \<and> (RegressionDisparityx1_forward generator criterion y y_adv weight mode =
         Inr ((ground_truth', ground_false'), r) \<longrightarrow> ground_false' = complement ground_truth')
   \<and> shape (complement t) = shape t
   \<and> (b < length (elems t) \<and> k < length (elems t ! b) \<and> i < length (elems t ! b ! k)
        \<and> j < length (elems t ! b ! k ! i) \<longrightarrow>
        elems (complement t) ! b ! k ! i ! j = min 1 (max 0 (1 - elems t ! b ! k ! i ! j * 10))
        \<and> (1 / 10 \<le> elems t ! b ! k ! i ! j \<longrightarrow> elems (complement t) ! b ! k ! i ! j = 0)
        \<and> \<not> (1 / 10 \<le> elems t ! b ! k ! i ! j \<and> 0 < elems (complement t) ! b ! k ! i ! j))"
proof -
  have g: "PseudoLabelGenerator01_forward get_max_preds self y = Inr (ground_truth, ground_false)
      \<longrightarrow> ground_false = complement ground_truth"
    unfolding PseudoLabelGenerator01_forward_def complement_forward_def
    by (auto simp: bindE_Inr_iff split: prod.splits)
  have r: "RegressionDisparityx1_forward generator criterion y y_adv weight mode =
         Inr ((ground_truth', ground_false'), r) \<longrightarrow> ground_false' = complement ground_truth'"
    unfolding RegressionDisparityx1_forward_def Let_def
    by (auto simp: bindE_Inr_iff split: prod.splits if_splits)
  have s: "shape (complement t) = shape t" by (simp add: complement_def tmap_def)
  have e: "elems (complement t) ! b ! k ! i ! j = min 1 (max 0 (1 - elems t ! b ! k ! i ! j * 10))"
    if "b < length (elems t)" "k < length (elems t ! b)" "i < length (elems t ! b ! k)"
      "j < length (elems t ! b ! k ! i)"
    using that by (simp add: complement_def tmap_def clip01_def)
  have z: "min 1 (max 0 (1 - v * 10)) = (0::real)" if "1 / 10 \<le> v" for v
    using that by simp
  show ?thesis using g r s e z by (simp add: not_less)
qed

theorem C6_complement_ground_false_witness:
  "complement \<lparr>shape = (1, 1, 1, 3), elems = [[[[0, 1 / 10, 1 / 20]]]]\<rparr> =
     \<lparr>shape = (1, 1, 1, 3), elems = [[[[1, 0, 1 / 2]]]]\<rparr>
   \<and> RegressionDisparityx1_forward (\<lambda>t. Inr (t, t)) (\<lambda>a t w. t)
        \<lparr>shape = (1, 1, 1, 3), elems = [[[[0, 1 / 10, 1 / 20]]]]\<rparr>
        \<lparr>shape = (1, 1, 1, 3), elems = [[[[0, 0, 0]]]]\<rparr> (None :: nat option) ''max'' =
      Inr ((\<lparr>shape = (1, 1, 1, 3), elems = [[[[0, 1 / 10, 1 / 20]]]]\<rparr>,
            \<lparr>shape = (1, 1, 1, 3), elems = [[[[1, 0, 1 / 2]]]]\<rparr>),
           \<lparr>shape = (1, 1, 1, 3), elems = [[[[1, 0, 1 / 2]]]]\<rparr>)
   \<and> elems (complement \<lparr>shape = (1, 1, 1, 3), elems = [[[[0, 1 / 10, 1 / 20]]]]\<rparr>) ! 0 ! 0 ! 0 ! 1 = 0"
proof -
  let ?t = "\<lparr>shape = (1, 1, 1, 3), elems = [[[[0, 1 / 10, 1 / 20 :: real]]]]\<rparr>"
  have c: "complement ?t = \<lparr>shape = (1, 1, 1, 3), elems = [[[[1, 0, 1 / 2]]]]\<rparr>"
    by (simp add: complement_def tmap_def clip01_def)
  have f: "RegressionDisparityx1_forward (\<lambda>t. Inr (t, t)) (\<lambda>a t w. t) ?t
        \<lparr>shape = (1, 1, 1, 3), elems = [[[[0, 0, 0]]]]\<rparr> (None :: nat option) ''max'' =
      Inr ((?t, complement ?t), complement ?t)"
    by (simp add: RegressionDisparityx1_forward_def Let_def)
  have "elems (complement ?t) ! 0 ! 0 ! 0 ! 1 = 0"
    using C6_complement_ground_false[where t = ?t and b = 0 and k = 0 and i = 0 and j = 1,
        THEN conjunct2, THEN conjunct2, THEN conjunct2]
    by simp
  then show ?thesis using c f by simp
qed

subsection \<open>Claim C7: the invariant of the template bank\<close>

text \<open>
  Claim C7. In the bank that \<open>PseudoLabelGenerator(num_keypoints, height, width, sigma)\<close>
  builds for a positive \<open>sigma\<close>, the template of every peak \<open>(x, y)\<close> is non-negative
  at every pixel and equals 1 at the pixel \<open>(y, x)\<close> of the peak; for two pixels inside
  the truncation window of half-width \<open>3 * sigma\<close>, the one farther from the peak in
  Euclidean distance holds the smaller value (the same value at the same distance); and
  the template is zero at every pixel farther than \<open>sqrt 2 * 3 * sigma\<close> from the peak.
\<close>

theorem C7_template_bank_invariant:
  assumes init: "PseudoLabelGenerator_init K H W s = Inr gen" and s: "0 < s"
    and peak: "x < W" "y < H" and p: "iy < H" "ix < W" and q: "iy' < H" "ix' < W"
  shows "0 \<le> heatmaps gen ! x ! y ! iy ! ix
       \<and> heatmaps gen ! x ! y ! y ! x = 1
       \<and> (in_window (3 * s) x y ix iy \<and> in_window (3 * s) x y ix' iy' \<longrightarrow>
            (euclid x y ix iy \<le> euclid x y ix' iy' \<longrightarrow>
               heatmaps gen ! x ! y ! iy' ! ix' \<le> heatmaps gen ! x ! y ! iy ! ix) \<and>
            (euclid x y ix iy < euclid x y ix' iy' \<longrightarrow>
               heatmaps gen ! x ! y ! iy' ! ix' < heatmaps gen ! x ! y ! iy ! ix))
       \<and> (sqrt 2 * real_of_int (3 * s) < euclid x y ix iy \<longrightarrow> heatmaps gen ! x ! y ! iy ! ix = 0)"
proof -
  have vp: "heatmaps gen ! x ! y ! iy ! ix = bump s (3 * s) x y iy ix"
    using init s peak p by (rule bank_nth)
  have vq: "heatmaps gen ! x ! y ! iy' ! ix' = bump s (3 * s) x y iy' ix'"
    using init s peak q by (rule bank_nth)
  have vc: "heatmaps gen ! x ! y ! y ! x = bump s (3 * s) x y y x"
    using init s peak peak(2) peak(1) by (rule bank_nth)
  have s0: "s \<noteq> 0" and t: "0 \<le> 3 * s" using s by simp_all
  have c1: "0 \<le> heatmaps gen ! x ! y ! iy ! ix" unfolding vp by (rule bump_nonneg)
  have c2: "heatmaps gen ! x ! y ! y ! x = 1" unfolding vc using t by (rule bump_center)
  have c3: "in_window (3 * s) x y ix iy \<and> in_window (3 * s) x y ix' iy' \<longrightarrow>
            (euclid x y ix iy \<le> euclid x y ix' iy' \<longrightarrow>
               heatmaps gen ! x ! y ! iy' ! ix' \<le> heatmaps gen ! x ! y ! iy ! ix) \<and>
            (euclid x y ix iy < euclid x y ix' iy' \<longrightarrow>
               heatmaps gen ! x ! y ! iy' ! ix' < heatmaps gen ! x ! y ! iy ! ix)"
    unfolding vp vq using bump_antimono[OF s0, of "3 * s" x y ix iy ix' iy'] by blast
  have c4: "sqrt 2 * real_of_int (3 * s) < euclid x y ix iy \<longrightarrow> heatmaps gen ! x ! y ! iy ! ix = 0"
  proof
    assume far: "sqrt 2 * real_of_int (3 * s) < euclid x y ix iy"
    have "\<not> in_window (3 * s) x y ix iy"
      using window_radius[OF t, of x y ix iy] far by fastforce
    then show "heatmaps gen ! x ! y ! iy ! ix = 0" unfolding vp by (rule bump_out)
  qed
  show ?thesis using c1 c2 c3 c4 by blast
qed

theorem C7_template_bank_invariant_witness:
  "\<exists>gen. PseudoLabelGenerator_init 1 3 5 1 = Inr gen
     \<and> 0 \<le> heatmaps gen ! 0 ! 0 ! 0 ! 1
     \<and> heatmaps gen ! 0 ! 0 ! 0 ! 0 = 1
     \<and> in_window 3 0 0 1 0 \<and> in_window 3 0 0 1 1 \<and> euclid 0 0 1 0 < euclid 0 0 1 1
     \<and> heatmaps gen ! 0 ! 0 ! 1 ! 1 < heatmaps gen ! 0 ! 0 ! 0 ! 1
     \<and> sqrt 2 * 3 < euclid 0 0 4 2
     \<and> heatmaps gen ! 0 ! 0 ! 2 ! 4 = 0"
proof -
  obtain gen where init: "PseudoLabelGenerator_init 1 3 5 1 = Inr gen"
    using PseudoLabelGenerator_init_bank[of 1 1 3 5] by simp
  have w: "in_window 3 0 0 1 0" "in_window 3 0 0 1 1" by (simp_all add: in_window_def)
  have d: "euclid 0 0 1 0 < euclid 0 0 1 1" by (simp add: euclid_def)
  have "sqrt 2 * 3 = sqrt 18" using real_sqrt_mult[of 2 9] by simp
  then have far: "sqrt 2 * 3 < euclid 0 0 4 2" by (simp add: euclid_def)
  note near = C7_template_bank_invariant[OF init, of 0 0 0 1 1 1, simplified]
  note away = C7_template_bank_invariant[OF init, of 0 0 2 4 0 0, simplified]
  have "0 \<le> heatmaps gen ! 0 ! 0 ! 0 ! 1" "heatmaps gen ! 0 ! 0 ! 0 ! 0 = 1"
    "heatmaps gen ! 0 ! 0 ! 1 ! 1 < heatmaps gen ! 0 ! 0 ! 0 ! 1"
    using near w d by simp_all
  moreover have "heatmaps gen ! 0 ! 0 ! 2 ! 4 = 0" using away far by simp
  ultimately show ?thesis using init w d far by blast
qed

subsection \<open>Claim C8: normalisation of a slice that is zero everywhere\<close>

text \<open>
  No variant guards the division by the maximum. The maximum of a slice that is zero
  everywhere is \<open>0\<close>, and \<open>0 / 0\<close> is \<open>nan\<close> in torch: nothing is raised, and the slice
  comes back as \<open>nan\<close> everywhere.
\<close>

lemma fold_max_zero: "fold max (replicate n (0::real)) 0 = 0"
  by (induction n) simp_all

lemma torch_max_zero:
  assumes "0 < H" "0 < W"
  shows "torch_max (replicate H (replicate W 0)) = Inr 0"
proof -
  obtain n where n: "H * W = Suc n" using assms by (cases "H * W") auto
  have "concat (replicate H (replicate W (0::real))) = replicate (H * W) 0"
    by (induction H) (simp_all add: replicate_add)
  then have c: "concat (replicate H (replicate W (0::real))) = 0 # replicate n 0"
    by (simp add: n)
  show ?thesis unfolding torch_max_def by (simp only: c list.case fold_max_zero)
qed

lemma div_by_max_zero:
  assumes "0 < H" "0 < W"
  shows "div_by_max (replicate H (replicate W 0)) = Inr (replicate H (replicate W NaN))"
  by (simp add: div_by_max_def torch_max_zero[OF assms] fdiv_def)

lemma div_by_max_succeeds:
  assumes "concat img \<noteq> []"
  shows "\<exists>r. div_by_max img = Inr r"
  using assms by (cases "concat img") (simp_all add: div_by_max_def torch_max_def)

lemma concat_nonempty:
  assumes "0 < length img" "\<forall>r\<in>set img. 0 < length r"
  shows "concat img \<noteq> []"
  using assms by (cases img) auto

lemma normalize_channels_returns:
  assumes wf: "wf_tensor4 t" and sh: "shape t = (B, K, H, W)"
    and pos: "0 < B" "0 < K" "0 < H" "0 < W"
  shows "\<exists>out. normalize_channels t = Inr out \<and> shape out = (B, K, H, W)
           \<and> (\<forall>k<B. \<forall>j<K. div_by_max (elems t ! k ! j) = Inr (elems out ! k ! j))"
proof -
  note w = wf_tensor4_nth[OF wf sh]
  have slice: "\<exists>r. div_by_max (elems t ! k ! j) = Inr r" if kj: "k < B" "j < K" for k j
  proof (rule div_by_max_succeeds, rule concat_nonempty)
    show "0 < length (elems t ! k ! j)" using w(3)[OF kj] pos(3) by simp
    show "\<forall>r\<in>set (elems t ! k ! j). 0 < length r" using w(5)[OF kj] pos(4) by simp
  qed
  have inner: "\<exists>row. bindE (mapE (\<lambda>j. div_by_max (elems t ! k ! j)) [0..<K]) stack = Inr row" if kB: "k < B" for k
  proof -
    obtain ys where ys: "mapE (\<lambda>j. div_by_max (elems t ! k ! j)) [0..<K] = Inr ys"
      using mapE_succeeds[of "[0..<K]" "\<lambda>j. div_by_max (elems t ! k ! j)"] slice[OF kB] by auto
    have "length ys = K" using mapE_Inr_D[OF ys] by simp
    then have "ys \<noteq> []" using pos(2) by auto
    then show ?thesis by (simp add: ys stack_def)
  qed
  obtain l where l: "mapE (\<lambda>k. bindE (mapE (\<lambda>j. div_by_max (elems t ! k ! j)) [0..<K]) stack) [0..<B] = Inr l"
    using mapE_succeeds[of "[0..<B]" "\<lambda>k. bindE (mapE (\<lambda>j. div_by_max (elems t ! k ! j)) [0..<K]) stack"] inner
    by auto
  have ll: "length l = B" using mapE_Inr_D[OF l] by simp
  then have ne: "l \<noteq> []" using pos(1) by auto
  have out: "normalize_channels t = Inr \<lparr>shape = (B, K, H, W), elems = l\<rparr>"
    unfolding normalize_channels_def by (simp add: sh l stack_def ne)
  have ent: "div_by_max (elems t ! k ! j) = Inr (l ! k ! j)" if k: "k < B" and j: "j < K" for k j
  proof -
    have "bindE (mapE (\<lambda>j. div_by_max (elems t ! k ! j)) [0..<K]) stack = Inr (l ! k)"
      using mapE_Inr_D[OF l] k by simp
    then obtain ys where ys: "mapE (\<lambda>j. div_by_max (elems t ! k ! j)) [0..<K] = Inr ys"
      and st: "stack ys = Inr (l ! k)"
      by (auto simp: bindE_Inr_iff)
    have "l ! k = ys" using st by (simp add: stack_def split: if_splits)
    then show ?thesis using mapE_Inr_D[OF ys] j by simp
  qed
  show ?thesis using out ent by simp
qed


lemma normalize_samples_returns:
  assumes sh: "shape3 t = (B, H, W)" and b: "0 < b" "b \<le> B"
    and ne: "\<forall>i<b. concat (elems3 t ! i) \<noteq> []"
  shows "\<exists>out. normalize_samples b t = Inr out \<and> shape3 out = (b, H, W)
           \<and> (\<forall>k<b. div_by_max (elems3 t ! k) = Inr (elems3 out ! k))"
proof -
  have each: "\<exists>r. (if k < B then div_by_max (elems3 t ! k) else Inl IndexError) = Inr r"
    if kb: "k \<in> set [0..<b]" for k
  proof -
    have k: "k < b" using kb by simp
    then have "k < B" using b(2) by simp
    moreover have "\<exists>r. div_by_max (elems3 t ! k) = Inr r"
      using ne k by (intro div_by_max_succeeds) simp
    ultimately show ?thesis by simp
  qed
  obtain l where l: "mapE (\<lambda>k. if k < B then div_by_max (elems3 t ! k) else Inl IndexError) [0..<b] = Inr l"
    using mapE_succeeds[of "[0..<b]" "\<lambda>k. if k < B then div_by_max (elems3 t ! k) else Inl IndexError"] each
    by auto
  have ll: "length l = b" using mapE_Inr_D[OF l] by simp
  then have nel: "l \<noteq> []" using b(1) by auto
  have out: "normalize_samples b t = Inr \<lparr>shape3 = (b, H, W), elems3 = l\<rparr>"
    unfolding normalize_samples_def by (simp add: sh l stack_def nel)
  have ent: "div_by_max (elems3 t ! k) = Inr (l ! k)" if k: "k < b" for k
  proof -
    have kB: "k < B" using k b(2) by simp
    have "(if [0..<b] ! k < B then div_by_max (elems3 t ! ([0..<b] ! k)) else Inl IndexError) = Inr (l ! k)"
      using mapE_Inr_D[OF l] k by simp
    then show ?thesis using k kB by simp
  qed
  show ?thesis using out ent by simp
qed

text \<open>
  Claim C8, as the code has it. Let a slice of \<open>H\<close> rows and \<open>W\<close> columns with a pixel
  be zero everywhere. The division by its maximum returns, and every entry of the result
  is \<open>nan\<close>. The normalisation of every sample by its maximum (\<open>RegressionDisparity2\<close>,
  on samples with a pixel) returns, and the sample that was zero is \<open>nan\<close> everywhere.
  When the generator hands a well-formed ground false with such a channel to
  \<open>RegressionDisparityx4.forward\<close> (with \<open>y_adv2 = None\<close> and a valid mode), the forward
  pass returns, and that channel of the ground false it hands to the criterion is \<open>nan\<close>
  everywhere.
\<close>

theorem C8_zero_slice_nan:
  assumes pos: "0 < H" "0 < W" and mode: "mode = ''min'' \<or> mode = ''max''"
  shows "div_by_max (replicate H (replicate W 0)) = Inr (replicate H (replicate W NaN))
       \<and> (shape3 t = (B, H, W) \<and> b \<le> B \<and> (\<forall>i<b. concat (elems3 t ! i) \<noteq> [])
            \<and> k < b \<and> elems3 t ! k = replicate H (replicate W 0) \<longrightarrow>
          (\<exists>out. normalize_samples b t = Inr out
                \<and> elems3 out ! k = replicate H (replicate W NaN)))
       \<and> (generator y = Inr (gt, gf) \<and> wf_tensor4 gf \<and> shape gf = (B, K, H, W)
            \<and> k < B \<and> j < K \<and> elems gf ! k ! j = replicate H (replicate W 0) \<longrightarrow>
          (\<exists>out. RegressionDisparityx4_forward generator criterion y y_adv weight None mode
                   = Inr ((gt, out), if mode = ''min'' then criterion y_adv (tmap Fin gt) weight
                                     else criterion y_adv out weight)
                \<and> elems out ! k ! j = replicate H (replicate W NaN)))"
proof (intro conjI impI)
  show d: "div_by_max (replicate H (replicate W 0)) = Inr (replicate H (replicate W NaN))"
    by (rule div_by_max_zero[OF pos])
next
  assume a: "shape3 t = (B, H, W) \<and> b \<le> B \<and> (\<forall>i<b. concat (elems3 t ! i) \<noteq> [])
            \<and> k < b \<and> elems3 t ! k = replicate H (replicate W 0)"
  then have sh: "shape3 t = (B, H, W)" and bB: "b \<le> B"
    and ne: "\<forall>i<b. concat (elems3 t ! i) \<noteq> []" and k: "k < b"
    and zero: "elems3 t ! k = replicate H (replicate W 0)" by simp_all
  have b0: "0 < b" using k by simp
  obtain out where out: "normalize_samples b t = Inr out"
    and ent: "\<forall>k<b. div_by_max (elems3 t ! k) = Inr (elems3 out ! k)"
    using normalize_samples_returns[OF sh b0 bB ne] by blast
  have "div_by_max (elems3 t ! k) = Inr (replicate H (replicate W NaN))"
    unfolding zero by (rule div_by_max_zero[OF pos])
  then have "elems3 out ! k = replicate H (replicate W NaN)" using ent k by simp
  then show "\<exists>out. normalize_samples b t = Inr out \<and> elems3 out ! k = replicate H (replicate W NaN)"
    using out by blast
next
  assume a: "generator y = Inr (gt, gf) \<and> wf_tensor4 gf \<and> shape gf = (B, K, H, W)
            \<and> k < B \<and> j < K \<and> elems gf ! k ! j = replicate H (replicate W 0)"
  then have gen: "generator y = Inr (gt, gf)" and wf: "wf_tensor4 gf"
    and sh: "shape gf = (B, K, H, W)" and k: "k < B" and j: "j < K"
    and zero: "elems gf ! k ! j = replicate H (replicate W 0)" by simp_all
  have d: "div_by_max (elems gf ! k ! j) = Inr (replicate H (replicate W NaN))"
    unfolding zero by (rule div_by_max_zero[OF pos])
  have B: "0 < B" and K: "0 < K" using k j by simp_all
  obtain out where out: "normalize_channels gf = Inr out"
    and ent: "\<forall>k<B. \<forall>j<K. div_by_max (elems gf ! k ! j) = Inr (elems out ! k ! j)"
    using normalize_channels_returns[OF wf sh B K pos] by blast
  have e: "elems out ! k ! j = replicate H (replicate W NaN)"
    using ent k j d by simp
  have m: "\<not> mode \<notin> set [''min'', ''max'']" using mode by auto
  have "RegressionDisparityx4_forward generator criterion y y_adv weight None mode
      = Inr ((gt, out), if mode = ''min'' then criterion y_adv (tmap Fin gt) weight
                        else criterion y_adv out weight)"
    unfolding RegressionDisparityx4_forward_def Let_def
    by (simp only: m if_False gen bindE_Inr prod.case option.case out)
  then show "\<exists>out. RegressionDisparityx4_forward generator criterion y y_adv weight None mode
                   = Inr ((gt, out), if mode = ''min'' then criterion y_adv (tmap Fin gt) weight
                                     else criterion y_adv out weight)
                \<and> elems out ! k ! j = replicate H (replicate W NaN)"
    using e by blast
qed

theorem C8_zero_slice_nan_witness:
  "div_by_max (replicate 1 (replicate 2 0)) = Inr (replicate 1 (replicate 2 NaN))
   \<and> (\<exists>out. normalize_samples 1 \<lparr>shape3 = (1, 1, 2), elems3 = [[[0, 0]]]\<rparr> = Inr out
          \<and> elems3 out ! 0 = [[NaN, NaN]])
   \<and> (\<exists>out. RegressionDisparityx4_forward
       (PseudoLabelGenerator_forward get_max_preds
          \<lparr>height = 1, width = 2, sigma = 1,
           heatmaps = [[[[1, exp (- (1 / 2))]]], [[[exp (- (1 / 2)), 1]]]],
           false_matrix = [[0]]\<rparr>)
       (\<lambda>a t w. t)
       \<lparr>shape = (1, 1, 1, 2), elems = [[[[3, 9]]]]\<rparr>
       \<lparr>shape = (1, 1, 1, 2), elems = [[[[3, 9]]]]\<rparr> (None :: unit option) None ''max''
     = Inr ((\<lparr>shape = (1, 1, 1, 2), elems = [[[[exp (- (1 / 2)), 1]]]]\<rparr>, out), out)
     \<and> elems out ! 0 ! 0 = [[NaN, NaN]])"
proof -
  define G where "G = PseudoLabelGenerator_forward get_max_preds
          \<lparr>height = 1, width = 2, sigma = 1,
           heatmaps = [[[[1, exp (- (1 / 2))]]], [[[exp (- (1 / 2)), 1]]]],
           false_matrix = [[0]]\<rparr>"
  define Y :: "real tensor4" where "Y = \<lparr>shape = (1, 1, 1, 2), elems = [[[[3, 9]]]]\<rparr>"
  define T :: "real tensor4" where "T = \<lparr>shape = (1, 1, 1, 2), elems = [[[[exp (- (1 / 2)), 1]]]]\<rparr>"
  define F :: "real tensor4" where "F = \<lparr>shape = (1, 1, 1, 2), elems = [[[[0, 0]]]]\<rparr>"
  define S :: "real tensor3" where "S = \<lparr>shape3 = (1, 1, 2), elems3 = [[[0, 0]]]\<rparr>"
  have g: "G Y = Inr (T, F)" unfolding G_def Y_def T_def F_def by (rule single_forward)
  have mode: "''max'' = ''min'' \<or> ''max'' = ''max''" by simp
  have p1: "0 < (1::nat)" and p2: "0 < (2::nat)" by simp_all
  note inst = C8_zero_slice_nan[where H = 1 and W = 2 and mode = "''max''" and generator = G and y = Y
      and criterion = "\<lambda>a t w. t" and y_adv = Y and weight = "None :: unit option"
      and gt = T and gf = F and B = 1 and K = 1 and k = 0 and j = 0 and t = S and b = 1,
      OF p1 p2 mode]
  have hs: "shape3 S = (1, 1, 2) \<and> (1::nat) \<le> 1 \<and> (\<forall>i<1. concat (elems3 S ! i) \<noteq> [])
      \<and> (0::nat) < 1 \<and> elems3 S ! 0 = replicate 1 (replicate 2 0)"
    by (simp add: S_def numeral_2_eq_2)
  have hc: "G Y = Inr (T, F) \<and> wf_tensor4 F \<and> shape F = (1, 1, 1, 2)
      \<and> (0::nat) < 1 \<and> (0::nat) < 1 \<and> elems F ! 0 ! 0 = replicate 1 (replicate 2 0)"
    using g by (simp add: F_def wf_tensor4_def numeral_2_eq_2)
  have c1: "div_by_max (replicate 1 (replicate 2 0)) = Inr (replicate 1 (replicate 2 NaN))"
    by (rule inst[THEN conjunct1])
  obtain o2 where o2: "normalize_samples 1 S = Inr o2" "elems3 o2 ! 0 = replicate 1 (replicate 2 NaN)"
    using inst[THEN conjunct2, THEN conjunct1, rule_format, OF hs] by (elim exE conjE)
  have c2: "\<exists>out. normalize_samples 1 S = Inr out \<and> elems3 out ! 0 = [[NaN, NaN]]"
    using o2 by (intro exI[of _ o2]) (simp add: numeral_2_eq_2)
  obtain out where o: "RegressionDisparityx4_forward G (\<lambda>a t w. t) Y Y (None :: unit option) None ''max''
      = Inr ((T, out), if ''max'' = ''min'' then tmap Fin T else out)"
      "elems out ! 0 ! 0 = replicate 1 (replicate 2 NaN)"
    using inst[THEN conjunct2, THEN conjunct2, rule_format, OF hc] by (elim exE conjE)
  have o1: "RegressionDisparityx4_forward G (\<lambda>a t w. t) Y Y (None :: unit option) None ''max''
      = Inr ((T, out), out)" using o(1) by simp
  have o3: "elems out ! 0 ! 0 = [[NaN, NaN]]" using o(2) by (simp add: numeral_2_eq_2)
  have c3: "\<exists>out. RegressionDisparityx4_forward G (\<lambda>a t w. t) Y Y (None :: unit option) None ''max''
      = Inr ((T, out), out) \<and> elems out ! 0 ! 0 = [[NaN, NaN]]"
    using o1 o3 by (intro exI[of _ out] conjI)
  show ?thesis
    using c1 c2 c3 unfolding G_def Y_def T_def S_def
    by (intro conjI)
qed

lemma single_normalize:
  "normalize_channels \<lparr>shape = (1, 1, 1, 2), elems = [[[[0, 0]]]]\<rparr> =
     Inr \<lparr>shape = (1, 1, 1, 2), elems = [[[[NaN, NaN]]]]\<rparr>"
  by (simp add: normalize_channels_def div_by_max_def torch_max_def stack_def fdiv_def)

text \<open>
  Claim C8 as stated fails: the slice does not stay zero.
  \<open>PseudoLabelGenerator(num_keypoints=1, height=1, width=2, sigma=1)\<close> returns a ground
  false that is zero everywhere, and \<open>RegressionDisparityx4.forward\<close> in mode \<open>max\<close> hands
  a ground false of \<open>nan\<close> to the criterion (which returns its target here).
\<close>

theorem C8_nan_counterexample:
  "bindE (PseudoLabelGenerator_init 1 1 2 1) (\<lambda>self.
     RegressionDisparityx4_forward (PseudoLabelGenerator_forward get_max_preds self) (\<lambda>a t w. t)
       \<lparr>shape = (1, 1, 1, 2), elems = [[[[3, 9]]]]\<rparr>
       \<lparr>shape = (1, 1, 1, 2), elems = [[[[3, 9]]]]\<rparr> (None :: unit option) None ''max'') =
   Inr ((\<lparr>shape = (1, 1, 1, 2), elems = [[[[exp (- (1 / 2)), 1]]]]\<rparr>,
         \<lparr>shape = (1, 1, 1, 2), elems = [[[[NaN, NaN]]]]\<rparr>),
        \<lparr>shape = (1, 1, 1, 2), elems = [[[[NaN, NaN]]]]\<rparr>)"
proof -
  have m: "''max'' \<notin> set [''min'', ''max''] \<longleftrightarrow> False" "(''max'' = ''min'') \<longleftrightarrow> False" by simp_all
  show ?thesis
    unfolding single_generator RegressionDisparityx4_forward_def Let_def
    by (simp only: bindE_Inr m if_False single_forward prod.case option.case single_normalize)
qed

subsection \<open>Claim C9: the mode contract of the loss selector\<close>

text \<open>
  Claim C9. \<open>RegressionDisparity.forward\<close> fails with an assertion error for every mode
  other than \<open>min\<close> and \<open>max\<close>, before the generator is called. When the generator
  returns \<open>(ground_truth, ground_false)\<close>, mode \<open>min\<close> returns
  \<open>criterion(y_adv, ground_truth, weight)\<close> and mode \<open>max\<close> returns
  \<open>criterion(y_adv, ground_false, weight)\<close>, with \<open>weight\<close> handed on as it was given.
\<close>

theorem C9_mode_contract:
  "(mode \<noteq> ''min'' \<and> mode \<noteq> ''max'' \<longrightarrow>
      RegressionDisparity_forward generator criterion y y_adv weight mode = Inl AssertionError)
   \<and> (generator y = Inr (ground_truth, ground_false) \<longrightarrow>
      RegressionDisparity_forward generator criterion y y_adv weight ''min'' =
        Inr ((ground_truth, ground_false), criterion y_adv ground_truth weight)
      \<and> RegressionDisparity_forward generator criterion y y_adv weight ''max'' =
        Inr ((ground_truth, ground_false), criterion y_adv ground_false weight))"
  by (simp add: RegressionDisparity_forward_def)

theorem C9_mode_contract_witness:
  "RegressionDisparity_forward (\<lambda>t. Inr (t, complement t)) (\<lambda>a t w. (a, t, w))
      \<lparr>shape = (1, 1, 1, 1), elems = [[[[1]]]]\<rparr> \<lparr>shape = (1, 1, 1, 1), elems = [[[[5]]]]\<rparr>
      (Some (2::nat)) ''avg'' = Inl AssertionError
   \<and> RegressionDisparity_forward (\<lambda>t. Inr (t, complement t)) (\<lambda>a t w. (a, t, w))
      \<lparr>shape = (1, 1, 1, 1), elems = [[[[1]]]]\<rparr> \<lparr>shape = (1, 1, 1, 1), elems = [[[[5]]]]\<rparr>
      (Some (2::nat)) ''min'' =
      Inr ((\<lparr>shape = (1, 1, 1, 1), elems = [[[[1]]]]\<rparr>, \<lparr>shape = (1, 1, 1, 1), elems = [[[[0]]]]\<rparr>),
           (\<lparr>shape = (1, 1, 1, 1), elems = [[[[5]]]]\<rparr>, \<lparr>shape = (1, 1, 1, 1), elems = [[[[1]]]]\<rparr>, Some 2))
   \<and> RegressionDisparity_forward (\<lambda>t. Inr (t, complement t)) (\<lambda>a t w. (a, t, w))
      \<lparr>shape = (1, 1, 1, 1), elems = [[[[1]]]]\<rparr> \<lparr>shape = (1, 1, 1, 1), elems = [[[[5]]]]\<rparr>
      (Some (2::nat)) ''max'' =
      Inr ((\<lparr>shape = (1, 1, 1, 1), elems = [[[[1]]]]\<rparr>, \<lparr>shape = (1, 1, 1, 1), elems = [[[[0]]]]\<rparr>),
           (\<lparr>shape = (1, 1, 1, 1), elems = [[[[5]]]]\<rparr>, \<lparr>shape = (1, 1, 1, 1), elems = [[[[0]]]]\<rparr>, Some 2))"
proof -
  let ?y = "\<lparr>shape = (1, 1, 1, 1), elems = [[[[1::real]]]]\<rparr>"
  let ?z = "\<lparr>shape = (1, 1, 1, 1), elems = [[[[0::real]]]]\<rparr>"
  have c: "complement ?y = ?z" by (simp add: complement_def tmap_def clip01_def)
  have g: "(\<lambda>t. Inr (t, complement t)) ?y = Inr (?y, ?z)" using c by simp
  show ?thesis
    using C9_mode_contract[of "''avg''" "\<lambda>t. Inr (t, complement t)" "\<lambda>a t w. (a, t, w)" ?y
        "\<lparr>shape = (1, 1, 1, 1), elems = [[[[5]]]]\<rparr>" "Some (2::nat)" ?y ?z] g
    by simp
qed

subsection \<open>Claim C10: the hardcoded 21 keypoint channels\<close>


lemma bdim_same [simp]: "bdim n n = Some n"
  by (simp add: bdim_def)


lemma shape3_tmap3 [simp]: "shape3 (tmap3 f t) = shape3 t"
  by (simp add: tmap3_def)




















end
